theory Spec2Isabelle
  imports Complex_Main "HOL-Library.Signed_Division"
begin

section \<open>Statuses and the early-return macros of runtime/model.cc\<close>

text \<open>
  The status codes of \<^verbatim>\<open>tensorflow::error::Code\<close>. A \<^verbatim>\<open>Status\<close> is modelled by its code;
  the message text plays no part in the control flow of \<^verbatim>\<open>NeuronModel::compute\<close>.
\<close>

datatype Code =
    OK | CANCELLED | UNKNOWN | INVALID_ARGUMENT | DEADLINE_EXCEEDED | NOT_FOUND
  | ALREADY_EXISTS | PERMISSION_DENIED | UNAUTHENTICATED | RESOURCE_EXHAUSTED
  | FAILED_PRECONDITION | ABORTED | OUT_OF_RANGE | UNIMPLEMENTED | INTERNAL
  | UNAVAILABLE | DATA_LOSS

text \<open>
  What a statement of the C++ does: it hands back a status, or the process stops
  (a failed \<^verbatim>\<open>CHECK\<close> of the tensor library, an integer division by zero, a write
  past the end of a vector). \<open>Returns OK\<close> is the only outcome after which the next
  statement runs.
\<close>

datatype outcome = Returns Code | Crashes

type_synonym 's action = "'s \<Rightarrow> outcome \<times> 's"

text \<open>
  A block of statements, each of which may leave the function: the C++ writes a fallible
  statement as \<^verbatim>\<open>TF_RETURN_IF_ERROR(...)\<close>, so the first outcome other than
  \<open>Returns OK\<close> is the outcome of the block and the rest is not run.
\<close>

fun seqs :: "'s action list \<Rightarrow> 's action" where
  "seqs [] s = (Returns OK, s)"
| "seqs (a # as) s =
     (case a s of (r, s') \<Rightarrow> if r = Returns OK then seqs as s' else (r, s'))"

definition modify :: "('s \<Rightarrow> 's) \<Rightarrow> 's action" where
  "modify f s = (Returns OK, f s)"

text \<open>
  A statement that first reads a value from the local variables and then runs:
  \<open>reading g f\<close> binds \<open>g\<close> of the current state in \<open>f\<close>.
\<close>

definition reading :: "('s \<Rightarrow> 'a) \<Rightarrow> ('a \<Rightarrow> 's action) \<Rightarrow> 's action" where
  "reading g f s = f (g s) s"

text \<open>\<^verbatim>\<open>TF_RETURN_IF_ERROR\<close> on a status computed without side effect.\<close>

definition return_status :: "Code \<Rightarrow> 's action" where
  "return_status status s = (Returns status, s)"

definition TFNN_ASSERT :: "('s \<Rightarrow> bool) \<Rightarrow> Code \<Rightarrow> 's action" where
  "TFNN_ASSERT cond error s = (if \<not> cond s then (Returns error, s) else (Returns OK, s))"

definition crash_unless :: "('s \<Rightarrow> bool) \<Rightarrow> 's action" where
  "crash_unless cond s = (if cond s then (Returns OK, s) else (Crashes, s))"

text \<open>
  \<^verbatim>\<open>RIE_IGNORE_ABORTED\<close> (model.cc lines 28-34): a status whose code is not
  \<^verbatim>\<open>ABORTED\<close> goes through \<^verbatim>\<open>TF_RETURN_IF_ERROR\<close>; one whose code is \<^verbatim>\<open>ABORTED\<close>
  falls through to the next statement.
\<close>

definition RIE_IGNORE_ABORTED :: "'s action \<Rightarrow> 's action" where
  "RIE_IGNORE_ABORTED a s =
     (case a s of (status, s') \<Rightarrow>
        if status \<noteq> Returns ABORTED then (status, s') else (Returns OK, s'))"

section \<open>Static metadata, tensors and the size validator\<close>

text \<open>
  The attributes of the \<^verbatim>\<open>NodeDef\<close> that \<^verbatim>\<open>compute\<close> reads. A declared element type
  is kept as its \<^verbatim>\<open>DataTypeSize\<close> (a function of the tensor library); a shape is the list
  of its dimension sizes, which a \<^verbatim>\<open>TensorShape\<close> keeps non-negative.
\<close>

record NodeDef =
  input_names :: "string list"
  input_dtypes :: "nat list"
  input_shapes :: "nat list list"
  output_names :: "string list"
  output_dtypes :: "nat list"
  output_shapes :: "nat list list"
  input_batch_axis :: "int list"
  output_batch_axis :: "int list"

text \<open>
  A tensor is a view of a buffer: \<^verbatim>\<open>Tensor::Slice\<close> shares the buffer of the tensor it
  slices and starts \<open>row0\<close> rows into it, a tensor built from a type and a shape owns
  a fresh buffer.
\<close>

datatype buffer =
    InputBuf nat
  | OutputBuf nat
  | PadBuf int nat
  | NoBuf

record Tensor =
  dtype_size :: nat
  shape :: "nat list"
  buf :: buffer
  row0 :: int

definition num_elements :: "nat list \<Rightarrow> nat" where
  "num_elements dims = prod_list dims"

definition get_tensor_size :: "nat \<Rightarrow> nat list \<Rightarrow> nat" where
  "get_tensor_size dype shape_proto = (dype * num_elements shape_proto) mod 2 ^ 64"

definition tensor_data_size :: "Tensor \<Rightarrow> nat" where
  "tensor_data_size t = dtype_size t * num_elements (shape t)"

text \<open>
  \<^verbatim>\<open>Tensor::Slice(start, limit)\<close>: rows \<open>[start, limit)\<close> of the leading dimension,
  aliasing the buffer.
\<close>

definition Slice :: "Tensor \<Rightarrow> int \<Rightarrow> int \<Rightarrow> Tensor" where
  "Slice t dim0_start dim0_limit =
     t\<lparr>shape := nat (dim0_limit - dim0_start) # tl (shape t), row0 := row0 t + dim0_start\<rparr>"

definition set_dim0 :: "nat list \<Rightarrow> int \<Rightarrow> nat list" where
  "set_dim0 dims d = nat d # tl dims"

definition empty_tensor :: Tensor where
  "empty_tensor = \<lparr>dtype_size = 4, shape = [0], buf = NoBuf, row0 = 0\<rparr>"


text \<open>\<^verbatim>\<open>get_io_tensor_sizes\<close> (model.cc lines 49-88), with both out-parameters given.\<close>

definition get_io_tensor_sizes :: "NodeDef \<Rightarrow> Code + (nat list \<times> nat list)" where
  "get_io_tensor_sizes node_def =
     (if length (input_names node_def) \<noteq> length (input_dtypes node_def)
         \<or> length (input_names node_def) \<noteq> length (input_shapes node_def)
      then Inl FAILED_PRECONDITION
      else if length (output_names node_def) \<noteq> length (output_dtypes node_def)
         \<or> length (output_names node_def) \<noteq> length (output_shapes node_def)
      then Inl FAILED_PRECONDITION
      else Inr
        (map (\<lambda>idx. get_tensor_size (input_dtypes node_def ! idx) (input_shapes node_def ! idx))
           [0..<length (input_dtypes node_def)],
         map (\<lambda>idx. get_tensor_size (output_dtypes node_def ! idx) (output_shapes node_def ! idx))
           [0..<length (output_dtypes node_def)]))"

fun check_tensor_sizes :: "Tensor list \<Rightarrow> nat list \<Rightarrow> nat list \<Rightarrow> Code" where
  "check_tensor_sizes input_tensors input_tensor_sizes [] = OK"
| "check_tensor_sizes input_tensors input_tensor_sizes (idx # rest) =
     (if tensor_data_size (input_tensors ! idx) \<noteq> input_tensor_sizes ! idx then INTERNAL
      else check_tensor_sizes input_tensors input_tensor_sizes rest)"

text \<open>\<^verbatim>\<open>check_input_tensors\<close> (model.cc lines 90-109).\<close>

definition check_input_tensors :: "Tensor list \<Rightarrow> NodeDef \<Rightarrow> Code" where
  "check_input_tensors input_tensors node_def =
     (case get_io_tensor_sizes node_def of
        Inl e \<Rightarrow> e
      | Inr (input_tensor_sizes, _) \<Rightarrow>
          if length input_tensors \<noteq> length (input_names node_def) then INTERNAL
          else check_tensor_sizes input_tensors input_tensor_sizes
                 [0..<length (input_names node_def)])"

section \<open>The batch planner (model.cc lines 173-249)\<close>

definition UNINIT_BATCH_SIZE :: int where
  "UNINIT_BATCH_SIZE = - 8"

record plan =
  batch_size :: int
  k_batch_size :: int
  is_batch_input_tensors :: "bool list"
  is_batch_output_tensors :: "bool list"
  use_dynamic_batch_size :: bool

definition initial_plan :: "nat \<Rightarrow> nat \<Rightarrow> plan" where
  "initial_plan num_inputs num_outputs =
     \<lparr>batch_size = UNINIT_BATCH_SIZE, k_batch_size = UNINIT_BATCH_SIZE,
      is_batch_input_tensors = replicate num_inputs False,
      is_batch_output_tensors = replicate num_outputs False,
      use_dynamic_batch_size = False\<rparr>"

text \<open>The loop of lines 183-188, leaving at the first axis that is not \<open>-1\<close>.\<close>

fun enable_dynamic_batch_size :: "int list \<Rightarrow> bool" where
  "enable_dynamic_batch_size [] = False"
| "enable_dynamic_batch_size (axis # rest) =
     (if - 1 \<noteq> axis then True else enable_dynamic_batch_size rest)"

text \<open>
  The body of the input loop (lines 193-226). \<^verbatim>\<open>k_shape.dim_size(0)\<close> and
  \<^verbatim>\<open>k_shape.RemoveDim(0)\<close> on a declared shape of rank 0 are outside the contract of
  \<^verbatim>\<open>TensorShape\<close>: the process stops there.
\<close>

definition analyse_input :: "NodeDef \<Rightarrow> Tensor list \<Rightarrow> nat \<Rightarrow> plan action" where
  "analyse_input node_def input_tensors idx =
     (let tshape = shape (input_tensors ! idx);
          k_shape = input_shapes node_def ! idx
      in if 0 = input_batch_axis node_def ! idx then
           seqs [
             TFNN_ASSERT (\<lambda>_. length tshape > 0) INVALID_ARGUMENT,
             reading batch_size (\<lambda>b.
               if UNINIT_BATCH_SIZE = b then
                 seqs [
                   crash_unless (\<lambda>_. k_shape \<noteq> []),
                   modify (\<lambda>p. p\<lparr>batch_size := int (hd tshape),
                                   k_batch_size := int (hd k_shape)\<rparr>),
                   TFNN_ASSERT (\<lambda>p. batch_size p > 0) INTERNAL]
               else TFNN_ASSERT (\<lambda>p. batch_size p = int (hd tshape)) INVALID_ARGUMENT),
             crash_unless (\<lambda>_. k_shape \<noteq> []),
             modify (\<lambda>p. p\<lparr>use_dynamic_batch_size := (batch_size p \<noteq> k_batch_size p)\<rparr>),
             TFNN_ASSERT (\<lambda>_. tl tshape = tl k_shape) INVALID_ARGUMENT,
             modify (\<lambda>p. p\<lparr>is_batch_input_tensors :=
                              (is_batch_input_tensors p)[idx := (batch_size p \<noteq> k_batch_size p)]\<rparr>)]
         else
           seqs [
             TFNN_ASSERT (\<lambda>_. tshape = k_shape) INVALID_ARGUMENT,
             modify (\<lambda>p. p\<lparr>is_batch_input_tensors := (is_batch_input_tensors p)[idx := False]\<rparr>)])"

text \<open>
  \<^verbatim>\<open>is_batch_output_tensors[idx] = is_batch_tensor\<close> (line 245): the vector has
  \<^verbatim>\<open>ctx->num_outputs()\<close> elements and the loop runs over the output names, so the write
  can fall past its end.
\<close>

definition store_output_flag :: "nat \<Rightarrow> (plan \<Rightarrow> bool) \<Rightarrow> plan action" where
  "store_output_flag idx is_batch_tensor =
     seqs [
       crash_unless (\<lambda>p. idx < length (is_batch_output_tensors p)),
       modify (\<lambda>p. p\<lparr>is_batch_output_tensors :=
                        (is_batch_output_tensors p)[idx := is_batch_tensor p]\<rparr>)]"

text \<open>The body of the output loop (lines 228-246).\<close>

definition analyse_output :: "NodeDef \<Rightarrow> nat \<Rightarrow> plan action" where
  "analyse_output node_def idx =
     (if 0 = output_batch_axis node_def ! idx then
        (let k_shape = output_shapes node_def ! idx
         in seqs [
              TFNN_ASSERT (\<lambda>_. length k_shape > 0) INVALID_ARGUMENT,
              TFNN_ASSERT (\<lambda>p. k_batch_size p = int (hd k_shape)) INVALID_ARGUMENT,
              store_output_flag idx (\<lambda>p. batch_size p \<noteq> int (hd k_shape))])
      else store_output_flag idx (\<lambda>_. False))"

text \<open>Lines 182-249: the guarded analysis block, then the check of the output count.\<close>

definition batch_analysis :: "NodeDef \<Rightarrow> Tensor list \<Rightarrow> nat \<Rightarrow> plan action" where
  "batch_analysis node_def input_tensors num_outputs =
     seqs [
       (if enable_dynamic_batch_size (input_batch_axis node_def)
           \<and> length (input_names node_def) = length (input_batch_axis node_def)
           \<and> length (output_names node_def) = length (output_batch_axis node_def)
        then seqs (map (analyse_input node_def input_tensors) [0..<length input_tensors]
                   @ map (analyse_output node_def) [0..<length (output_names node_def)])
        else seqs []),
       TFNN_ASSERT (\<lambda>_. num_outputs = length (output_names node_def)) INVALID_ARGUMENT]"

section \<open>Sub-batch arithmetic (model.cc lines 255-301)\<close>


definition int64 :: "int \<Rightarrow> int" where
  "int64 x = (x + 2 ^ 63) mod 2 ^ 64 - 2 ^ 63"

text \<open>Line 255.\<close>

definition pad_batch_size :: "int \<Rightarrow> int \<Rightarrow> int" where
  "pad_batch_size bsz k_bsz =
     int64 (int64 (int64 (int64 (bsz - 1) sdiv k_bsz) + 1) * k_bsz)"

text \<open>Line 267.\<close>

definition num_batches :: "int \<Rightarrow> int \<Rightarrow> int" where
  "num_batches bsz k_bsz = int64 (pad_batch_size bsz k_bsz sdiv k_bsz)"

definition window_size :: "int \<Rightarrow> int \<Rightarrow> int" where
  "window_size max_num_infers n = min (if max_num_infers > 1 then max_num_infers else 1) n"

section \<open>Collaborators: the kernel context and the device\<close>

text \<open>
  What \<^verbatim>\<open>compute\<close> is given: the static metadata, the runtime input tensors, the number
  of outputs of the kernel context, and the members of the model as
  \<^verbatim>\<open>initialize\<close> leaves them (\<^verbatim>\<open>max_num_infers_\<close>, whether \<^verbatim>\<open>infer_sem_\<close> is set,
  whether the profiler is enabled).
\<close>

record Env =
  node_def :: NodeDef
  input_tensors :: "Tensor list"
  num_outputs :: nat
  max_num_infers :: int
  infer_sem :: bool
  profile_enabled :: bool

text \<open>
  A \<^verbatim>\<open>RuntimeIO\<close> is named by the scoped object that owns it: the local
  \<^verbatim>\<open>scoped_io\<close>, or the element of \<^verbatim>\<open>scoped_io_queue\<close> emplaced for a sub-batch.
\<close>

datatype runtime_io = Scoped_io | Queued int

text \<open>
  The calls \<^verbatim>\<open>compute\<close> makes to code outside model.cc, with the arguments that tell
  them apart. The boolean of \<open>InferWithProfiling\<close> says whether a timestamp sink is
  passed.
\<close>

datatype call =
    AllocateOutput nat Tensor
  | TensorMemset Tensor
  | TensorMemcpy Tensor Tensor
  | Initialize
  | GetSession
  | AllocateTemp nat
  | SetupScopedRuntimeIO runtime_io "Tensor list" "Tensor list"
  | InferWithProfiling runtime_io bool
  | Infer runtime_io
  | Finish runtime_io
  | AcquireMutex
  | StartModelUnsafe
  | StartPing
  | AcquireSem
  | ReleaseSem
  | SetupInferPost runtime_io int
  | PostInferPost runtime_io
  | WaitInferPost runtime_io
  | SetupInfer runtime_io int
  | PostInfer runtime_io
  | WaitInfer runtime_io
  | InferWait runtime_io

text \<open>
  The collaborators are arbitrary: the status of a call may depend on the call and on how
  many calls came before it.
\<close>

type_synonym device = "nat \<Rightarrow> call \<Rightarrow> Code"

text \<open>The local variables of \<^verbatim>\<open>compute\<close> that change, and the calls made so far.\<close>

record cstate =
  trace :: "call list"
  batches_neuron_input_tensors :: "Tensor list list"
  batches_sliced_outputs :: "Tensor list list"
  scoped_io_queue :: "int list"
  need_wait_infer_post :: "int list"

definition initial_cstate :: cstate where
  "initial_cstate =
     \<lparr>trace = [], batches_neuron_input_tensors = [], batches_sliced_outputs = [],
      scoped_io_queue = [], need_wait_infer_post = []\<rparr>"

definition ext_call :: "device \<Rightarrow> call \<Rightarrow> cstate action" where
  "ext_call dev c s = (Returns (dev (length (trace s)) c), s\<lparr>trace := trace s @ [c]\<rparr>)"

text \<open>A call that hands back no status.\<close>

definition ext_void :: "call \<Rightarrow> cstate action" where
  "ext_void c s = (Returns OK, s\<lparr>trace := trace s @ [c]\<rparr>)"

section \<open>The request builder\<close>

text \<open>The output tensor allocated for output \<open>idx\<close> on the batched path (lines 258-264).\<close>

definition batch_output_tensor :: "NodeDef \<Rightarrow> plan \<Rightarrow> nat \<Rightarrow> Tensor" where
  "batch_output_tensor nd p idx =
     \<lparr>dtype_size = output_dtypes nd ! idx,
      shape = (if is_batch_output_tensors p ! idx
               then set_dim0 (output_shapes nd ! idx) (batch_size p)
               else output_shapes nd ! idx),
      buf = OutputBuf idx, row0 = 0\<rparr>"

definition emplace_input :: "int \<Rightarrow> Tensor \<Rightarrow> cstate action" where
  "emplace_input batch_idx t =
     modify (\<lambda>s. s\<lparr>batches_neuron_input_tensors :=
       (batches_neuron_input_tensors s)
         [nat batch_idx := batches_neuron_input_tensors s ! nat batch_idx @ [t]]\<rparr>)"

text \<open>The body of the inner loop of lines 272-294, for input \<open>idx\<close> of sub-batch \<open>batch_idx\<close>.\<close>

definition slice_batch_input :: "device \<Rightarrow> Tensor list \<Rightarrow> plan \<Rightarrow> int \<Rightarrow> nat \<Rightarrow> cstate action" where
  "slice_batch_input dev ts p batch_idx idx =
     (let k = k_batch_size p;
          pad = pad_batch_size (batch_size p) k;
          dim0_start = batch_idx * k;
          dim0_limit = batch_idx * k + k
      in if is_batch_input_tensors p ! idx then
           if batch_idx = num_batches (batch_size p) k - 1 then
             (let pad_end_slice = \<lparr>dtype_size = dtype_size (ts ! idx),
                                    shape = set_dim0 (shape (ts ! idx)) k,
                                    buf = PadBuf batch_idx idx, row0 = 0\<rparr>;
                  zero_slice = Slice pad_end_slice (k - (pad - batch_size p)) k;
                  end_slice = Slice (ts ! idx) dim0_start (batch_size p)
              in seqs [
                   ext_call dev (TensorMemset zero_slice),
                   ext_call dev (TensorMemcpy pad_end_slice end_slice),
                   emplace_input batch_idx pad_end_slice])
           else emplace_input batch_idx (Slice (ts ! idx) dim0_start dim0_limit)
         else emplace_input batch_idx empty_tensor)"

text \<open>
  Lines 268-295. A \<^verbatim>\<open>std::vector\<close> cannot be constructed with a negative number of
  elements: the constructor of line 268 throws, and nothing catches it.
\<close>

definition slice_batch_inputs :: "device \<Rightarrow> Tensor list \<Rightarrow> plan \<Rightarrow> cstate action" where
  "slice_batch_inputs dev ts p =
     (let n = num_batches (batch_size p) (k_batch_size p)
      in seqs (crash_unless (\<lambda>_. 0 \<le> n)
               # modify (\<lambda>s. s\<lparr>batches_neuron_input_tensors := replicate (nat n) []\<rparr>)
               # concat (map (\<lambda>batch_idx. map (slice_batch_input dev ts p batch_idx) [0..<length ts])
                           [0 .. n - 1])))"

text \<open>The inputs handed to the device for a sub-batch (lines 345-349, 398-402, 305-309).\<close>

definition sliced_inputs :: "Env \<Rightarrow> plan \<Rightarrow> int \<Rightarrow> cstate \<Rightarrow> Tensor list" where
  "sliced_inputs env p post_bidx s =
     map (\<lambda>idx. if is_batch_input_tensors p ! idx
                then batches_neuron_input_tensors s ! nat post_bidx ! idx
                else input_tensors env ! idx)
       [0..<length (input_names (node_def env))]"

definition check_sliced_inputs :: "Env \<Rightarrow> plan \<Rightarrow> int \<Rightarrow> cstate action" where
  "check_sliced_inputs env p post_bidx =
     reading (sliced_inputs env p post_bidx) (\<lambda>ins.
       return_status (check_input_tensors ins (node_def env)))"

text \<open>The output slices of a sub-batch (lines 353-363 and 406-416).\<close>

definition output_slices :: "NodeDef \<Rightarrow> plan \<Rightarrow> int \<Rightarrow> Tensor list" where
  "output_slices nd p post_bidx =
     (let dim0_start = post_bidx * k_batch_size p;
          dim0_limit = post_bidx * k_batch_size p + k_batch_size p
      in map (\<lambda>idx. if is_batch_output_tensors p ! idx
                     then Slice (batch_output_tensor nd p idx) dim0_start
                            (min dim0_limit (batch_size p))
                     else empty_tensor)
           [0..<length (output_dtypes nd)])"

definition setup_outputs :: "NodeDef \<Rightarrow> plan \<Rightarrow> int \<Rightarrow> cstate action" where
  "setup_outputs nd p post_bidx =
     modify (\<lambda>s. s\<lparr>batches_sliced_outputs :=
       (batches_sliced_outputs s)
         [nat post_bidx := batches_sliced_outputs s ! nat post_bidx @ output_slices nd p post_bidx]\<rparr>)"

text \<open>The output pointers handed to the device (lines 364-368 and 417-421).\<close>

definition output_tensors :: "NodeDef \<Rightarrow> plan \<Rightarrow> int \<Rightarrow> cstate \<Rightarrow> Tensor list" where
  "output_tensors nd p post_bidx s =
     map (\<lambda>idx. if is_batch_output_tensors p ! idx
                then batches_sliced_outputs s ! nat post_bidx ! idx
                else batch_output_tensor nd p idx)
       [0..<length (output_dtypes nd)]"

text \<open>The call of \<^verbatim>\<open>setup_scoped_runtime_io\<close> for a sub-batch (lines 370-372, 423-425).\<close>

definition setup_scoped_runtime_io :: "device \<Rightarrow> Env \<Rightarrow> plan \<Rightarrow> int \<Rightarrow> int \<Rightarrow> cstate action" where
  "setup_scoped_runtime_io dev env p post_bidx io =
     reading (sliced_inputs env p post_bidx) (\<lambda>ins.
     reading (output_tensors (node_def env) p post_bidx) (\<lambda>outs.
       ext_call dev (SetupScopedRuntimeIO (Queued io) ins outs)))"

definition emplace_scoped_io :: "int \<Rightarrow> cstate action" where
  "emplace_scoped_io post_bidx =
     modify (\<lambda>s. s\<lparr>scoped_io_queue := scoped_io_queue s @ [post_bidx]\<rparr>)"

definition pop_scoped_io :: "cstate action" where
  "pop_scoped_io = modify (\<lambda>s. s\<lparr>scoped_io_queue := tl (scoped_io_queue s)\<rparr>)"

definition push_need_wait :: "int \<Rightarrow> cstate action" where
  "push_need_wait io = modify (\<lambda>s. s\<lparr>need_wait_infer_post := need_wait_infer_post s @ [io]\<rparr>)"

definition pop_need_wait :: "cstate action" where
  "pop_need_wait = modify (\<lambda>s. s\<lparr>need_wait_infer_post := tl (need_wait_infer_post s)\<rparr>)"

section \<open>The windowed pipeline (model.cc lines 297-471)\<close>

text \<open>The body of the first loop, "post ninfer ones" (lines 343-393).\<close>

definition post_one :: "device \<Rightarrow> Env \<Rightarrow> plan \<Rightarrow> int \<Rightarrow> int \<Rightarrow> cstate action" where
  "post_one dev env p first_need_wait_infer_post_bidx post_bidx =
     seqs [
       check_sliced_inputs env p post_bidx,
       setup_outputs (node_def env) p post_bidx,
       emplace_scoped_io post_bidx,
       reading (\<lambda>s. last (scoped_io_queue s)) (\<lambda>back.
         RIE_IGNORE_ABORTED (setup_scoped_runtime_io dev env p post_bidx back)),
       (if infer_sem env then ext_call dev AcquireSem else seqs []),
       reading (\<lambda>s. last (scoped_io_queue s)) (\<lambda>runtime_io.
         if post_bidx \<ge> first_need_wait_infer_post_bidx then
           seqs [
             ext_call dev (SetupInferPost (Queued runtime_io) post_bidx),
             ext_call dev (PostInferPost (Queued runtime_io)),
             push_need_wait runtime_io]
         else
           seqs [
             ext_call dev (SetupInfer (Queued runtime_io) post_bidx),
             ext_call dev (PostInfer (Queued runtime_io))])]"

text \<open>The body of the second loop, "wait one and post one" (lines 396-446).\<close>

definition wait_one_post_one :: "device \<Rightarrow> Env \<Rightarrow> plan \<Rightarrow> int \<Rightarrow> int \<Rightarrow> cstate action" where
  "wait_one_post_one dev env p first_need_wait_infer_post_bidx post_bidx =
     seqs [
       check_sliced_inputs env p post_bidx,
       setup_outputs (node_def env) p post_bidx,
       emplace_scoped_io post_bidx,
       reading (\<lambda>s. last (scoped_io_queue s)) (\<lambda>runtime_io_back.
       reading (\<lambda>s. hd (scoped_io_queue s)) (\<lambda>runtime_io_front.
         seqs [
           RIE_IGNORE_ABORTED (setup_scoped_runtime_io dev env p post_bidx runtime_io_back),
           (if post_bidx \<ge> first_need_wait_infer_post_bidx
            then ext_call dev (SetupInferPost (Queued runtime_io_back) post_bidx)
            else ext_call dev (SetupInfer (Queued runtime_io_back) post_bidx)),
           ext_call dev (WaitInfer (Queued runtime_io_front)),
           (if post_bidx \<ge> first_need_wait_infer_post_bidx
            then seqs [
                   ext_call dev (PostInferPost (Queued runtime_io_back)),
                   push_need_wait runtime_io_back]
            else ext_call dev (PostInfer (Queued runtime_io_back))),
           RIE_IGNORE_ABORTED (ext_call dev (Finish (Queued runtime_io_front))),
           pop_scoped_io]))]"

text \<open>
  Lines 337-446: the device is taken and started, the first \<open>w\<close> requests are posted,
  then one request is waited for and one posted until all \<open>n\<close> are posted.
\<close>

definition post_all :: "device \<Rightarrow> Env \<Rightarrow> plan \<Rightarrow> int \<Rightarrow> int \<Rightarrow> cstate action" where
  "post_all dev env p n w =
     (let first_need_wait_infer_post_bidx = n - w
      in seqs ([
           ext_void AcquireMutex,
           RIE_IGNORE_ABORTED (ext_call dev StartModelUnsafe),
           RIE_IGNORE_ABORTED (ext_call dev StartPing)]
         @ map (post_one dev env p first_need_wait_infer_post_bidx) [0 .. w - 1]
         @ map (wait_one_post_one dev env p first_need_wait_infer_post_bidx) [w .. n - 1]))"

text \<open>The body of the loop of lines 451-455.\<close>

definition wait_posted :: "device \<Rightarrow> cstate action" where
  "wait_posted dev =
     seqs [
       reading (\<lambda>s. hd (need_wait_infer_post s)) (\<lambda>runtime_io_front.
         ext_call dev (WaitInferPost (Queued runtime_io_front))),
       pop_need_wait]"

text \<open>The block that holds the device lock (lines 333-456).\<close>

definition locked_section :: "device \<Rightarrow> Env \<Rightarrow> plan \<Rightarrow> int \<Rightarrow> int \<Rightarrow> cstate action" where
  "locked_section dev env p n w =
     seqs ([
       post_all dev env p n w,
       TFNN_ASSERT (\<lambda>s. int (length (need_wait_infer_post s)) = w) INTERNAL]
       @ map (\<lambda>wait_bidx. wait_posted dev) [0 .. w - 1])"

text \<open>The body of the last loop (lines 463-469), after its test of the queue.\<close>

definition wait_front :: "device \<Rightarrow> cstate action" where
  "wait_front dev =
     reading (\<lambda>s. hd (scoped_io_queue s)) (\<lambda>runtime_io_front.
       seqs [
         ext_call dev (InferWait (Queued runtime_io_front)),
         ext_call dev ReleaseSem,
         RIE_IGNORE_ABORTED (ext_call dev (Finish (Queued runtime_io_front))),
         pop_scoped_io])"

text \<open>
  The last loop, "wait for remaining ones in the queue" (lines 459-470); it leaves as soon
  as the queue is empty.
\<close>

fun wait_remaining :: "device \<Rightarrow> int list \<Rightarrow> cstate action" where
  "wait_remaining dev [] s = (Returns OK, s)"
| "wait_remaining dev (wait_bidx # rest) s =
     (if scoped_io_queue s = [] then (Returns OK, s)
      else case wait_front dev s of
             (r, s') \<Rightarrow> if r = Returns OK then wait_remaining dev rest s' else (r, s'))"

text \<open>A temporary output of the profiler's run (lines 311-315).\<close>

definition temp_output :: "NodeDef \<Rightarrow> nat \<Rightarrow> Tensor" where
  "temp_output nd idx =
     \<lparr>dtype_size = output_dtypes nd ! idx, shape = output_shapes nd ! idx,
      buf = NoBuf, row0 = 0\<rparr>"

text \<open>The extra inference of the profiler (lines 304-327).\<close>

definition profile_run :: "device \<Rightarrow> Env \<Rightarrow> plan \<Rightarrow> cstate action" where
  "profile_run dev env p =
     seqs ([check_sliced_inputs env p 0]
       @ map (\<lambda>idx. ext_call dev (AllocateTemp idx)) [0..<length (output_dtypes (node_def env))]
       @ [reading (sliced_inputs env p 0) (\<lambda>ins.
            RIE_IGNORE_ABORTED (ext_call dev
              (SetupScopedRuntimeIO Scoped_io ins
                 (map (temp_output (node_def env)) [0..<length (output_dtypes (node_def env))])))),
          ext_call dev (InferWithProfiling Scoped_io False),
          RIE_IGNORE_ABORTED (ext_call dev (Finish Scoped_io))])"

text \<open>
  The batched branch (lines 255-471). \<^verbatim>\<open>(batch_size - 1) / k_batch_size\<close> with a
  declared batch size of 0 is a division by zero.
\<close>

definition dynamic_batch_path :: "device \<Rightarrow> Env \<Rightarrow> plan \<Rightarrow> cstate action" where
  "dynamic_batch_path dev env p =
     (let n = num_batches (batch_size p) (k_batch_size p);
          w = window_size (max_num_infers env) n
      in seqs ([crash_unless (\<lambda>_. k_batch_size p \<noteq> 0)]
         @ map (\<lambda>idx. ext_call dev (AllocateOutput idx (batch_output_tensor (node_def env) p idx)))
             [0..<num_outputs env]
         @ [slice_batch_inputs dev (input_tensors env) p,
            RIE_IGNORE_ABORTED (ext_call dev Initialize),
            ext_void GetSession,
            (if profile_enabled env then profile_run dev env p else seqs []),
            modify (\<lambda>s. s\<lparr>batches_sliced_outputs := replicate (nat n) []\<rparr>),
            locked_section dev env p n w,
            wait_remaining dev [0 .. w - 1]]))"

text \<open>The output tensor allocated for output \<open>idx\<close> on the other branch (lines 474-477).\<close>

definition whole_output_tensor :: "NodeDef \<Rightarrow> nat \<Rightarrow> Tensor" where
  "whole_output_tensor nd idx =
     \<lparr>dtype_size = output_dtypes nd ! idx, shape = output_shapes nd ! idx,
      buf = OutputBuf idx, row0 = 0\<rparr>"

text \<open>The branch without dynamic batching (lines 473-493).\<close>

definition single_shot_path :: "device \<Rightarrow> Env \<Rightarrow> cstate action" where
  "single_shot_path dev env =
     seqs (
       map (\<lambda>idx. ext_call dev (AllocateOutput idx (whole_output_tensor (node_def env) idx)))
         [0..<num_outputs env]
       @ [RIE_IGNORE_ABORTED (ext_call dev Initialize),
          ext_void GetSession,
          return_status (check_input_tensors (input_tensors env) (node_def env)),
          RIE_IGNORE_ABORTED (ext_call dev
            (SetupScopedRuntimeIO Scoped_io (input_tensors env)
               (map (whole_output_tensor (node_def env)) [0..<num_outputs env]))),
          (if profile_enabled env
           then RIE_IGNORE_ABORTED (ext_call dev (InferWithProfiling Scoped_io True))
           else RIE_IGNORE_ABORTED (ext_call dev (Infer Scoped_io))),
          RIE_IGNORE_ABORTED (ext_call dev (Finish Scoped_io))])"

text \<open>\<^verbatim>\<open>NeuronModel::compute\<close> (lines 158-498).\<close>

definition compute :: "device \<Rightarrow> Env \<Rightarrow> outcome \<times> cstate" where
  "compute dev env =
     (if \<not> length (input_tensors env) = length (input_names (node_def env))
      then (Returns INVALID_ARGUMENT, initial_cstate)
      else case get_io_tensor_sizes (node_def env) of
        Inl e \<Rightarrow> (Returns e, initial_cstate)
      | Inr _ \<Rightarrow>
          (case batch_analysis (node_def env) (input_tensors env) (num_outputs env)
                  (initial_plan (length (input_tensors env)) (num_outputs env))
           of (r, p) \<Rightarrow>
             if r \<noteq> Returns OK then (r, initial_cstate)
             else if use_dynamic_batch_size p then dynamic_batch_path dev env p initial_cstate
             else single_shot_path dev env initial_cstate))"

section \<open>Example invocations\<close>

text \<open>
  One input \<open>x\<close> and one output \<open>y\<close> of four-byte elements, compiled for a hardware
  batch of 4 rows, both with batch axis 0.
\<close>

definition example_node_def :: NodeDef where
  "example_node_def =
     \<lparr>input_names = [''x''], input_dtypes = [4], input_shapes = [[4, 2]],
      output_names = [''y''], output_dtypes = [4], output_shapes = [[4, 3]],
      input_batch_axis = [0], output_batch_axis = [0]\<rparr>"

definition example_input :: "nat \<Rightarrow> Tensor" where
  "example_input rows = \<lparr>dtype_size = 4, shape = [rows, 2], buf = InputBuf 0, row0 = 0\<rparr>"

definition example_env :: "nat \<Rightarrow> int \<Rightarrow> Env" where
  "example_env rows max_infers =
     \<lparr>node_def = example_node_def, input_tensors = [example_input rows],
      num_outputs = 1, max_num_infers = max_infers, infer_sem = True,
      profile_enabled = False\<rparr>"

text \<open>The plan that the batch planner reaches for \<open>rows\<close> runtime rows (\<open>rows \<noteq> 4\<close>).\<close>

definition example_plan :: "nat \<Rightarrow> plan" where
  "example_plan rows =
     \<lparr>batch_size = int rows, k_batch_size = 4, is_batch_input_tensors = [True],
      is_batch_output_tensors = [True], use_dynamic_batch_size = True\<rparr>"

text \<open>A device on which every call succeeds.\<close>

definition ok_device :: device where
  "ok_device position c = OK"

text \<open>
  Metadata whose batch-axis list for the inputs has two entries for one input name.
\<close>

definition mismatched_axis_env :: Env where
  "mismatched_axis_env =
     \<lparr>node_def = example_node_def\<lparr>input_batch_axis := [0, 0]\<rparr>,
      input_tensors = [example_input 10],
      num_outputs = 1, max_num_infers = 2, infer_sem = True, profile_enabled = False\<rparr>"

text \<open>
  Metadata with two declared input types for one input name, called with one and with
  two input tensors.
\<close>

definition mismatched_dtypes_env :: "nat \<Rightarrow> Env" where
  "mismatched_dtypes_env num_inputs =
     \<lparr>node_def = example_node_def\<lparr>input_dtypes := [4, 4]\<rparr>,
      input_tensors = replicate num_inputs (example_input 4),
      num_outputs = 1, max_num_infers = 2, infer_sem = True, profile_enabled = False\<rparr>"

text \<open>
  The local variables of \<^verbatim>\<open>compute\<close> for 10 runtime rows at the point where the device
  lock is taken, with the calls made so far left out: three sub-batches of inputs, the last
  one padded, and no output slice yet.
\<close>

definition example_state_before_lock :: cstate where
  "example_state_before_lock =
     initial_cstate
       \<lparr>batches_neuron_input_tensors :=
          [[Slice (example_input 10) 0 4], [Slice (example_input 10) 4 8],
           [\<lparr>dtype_size = 4, shape = [4, 2], buf = PadBuf 2 0, row0 = 0\<rparr>]],
        batches_sliced_outputs := [[], [], []]\<rparr>"

section \<open>Vocabulary of the proofs\<close>

text \<open>
  \<open>wp a Q E s\<close>: run from \<open>s\<close>, the statement \<open>a\<close> either goes on to the next
  statement in a state where \<open>Q\<close> holds, or leaves with an outcome and a state related
  by \<open>E\<close>.
\<close>

definition wp :: "'s action \<Rightarrow> ('s \<Rightarrow> bool) \<Rightarrow> (outcome \<Rightarrow> 's \<Rightarrow> bool) \<Rightarrow> 's \<Rightarrow> bool" where
  "wp a Q E s = (case a s of (r, s') \<Rightarrow> if r = Returns OK then Q s' else E r s')"

text \<open>No tensor is marked as carrying the batch dimension, and dynamic batching is off.\<close>

definition no_batch_flags :: "plan \<Rightarrow> bool" where
  "no_batch_flags p =
     (\<not> use_dynamic_batch_size p
      \<and> (\<forall>i < length (is_batch_input_tensors p). \<not> is_batch_input_tensors p ! i)
      \<and> (\<forall>i < length (is_batch_output_tensors p). \<not> is_batch_output_tensors p ! i))"

text \<open>What the loops of the batch planner keep true of the plan.\<close>

definition planner_invariant :: "plan \<Rightarrow> bool" where
  "planner_invariant p =
     ((batch_size p = k_batch_size p \<longrightarrow> no_batch_flags p)
      \<and> (batch_size p = UNINIT_BATCH_SIZE \<longrightarrow> k_batch_size p = UNINIT_BATCH_SIZE))"

text \<open>
  A call that hands tensors over unsliced: the whole input tensors and the whole output
  tensors, and no zero-filling or copying of a padded buffer.
\<close>

fun passes_whole_tensors :: "Env \<Rightarrow> call \<Rightarrow> bool" where
  "passes_whole_tensors env (TensorMemset t) = False"
| "passes_whole_tensors env (TensorMemcpy t u) = False"
| "passes_whole_tensors env (SetupScopedRuntimeIO io ins outs) =
     (ins = input_tensors env
      \<and> outs = map (whole_output_tensor (node_def env)) [0..<num_outputs env])"
| "passes_whole_tensors env (AllocateOutput idx t) =
     (t = whole_output_tensor (node_def env) idx)"
| "passes_whole_tensors env c = True"

text \<open>The calls that set up, post and wait for the request of sub-batch \<open>b\<close>.\<close>

fun is_setup :: "int \<Rightarrow> call \<Rightarrow> bool" where
  "is_setup b (SetupInfer io tag) = (io = Queued b \<and> tag = b)"
| "is_setup b (SetupInferPost io tag) = (io = Queued b \<and> tag = b)"
| "is_setup b c = False"

fun is_post :: "int \<Rightarrow> call \<Rightarrow> bool" where
  "is_post b (PostInfer io) = (io = Queued b)"
| "is_post b (PostInferPost io) = (io = Queued b)"
| "is_post b c = False"

fun is_wait :: "int \<Rightarrow> call \<Rightarrow> bool" where
  "is_wait b (WaitInfer io) = (io = Queued b)"
| "is_wait b c = False"

text \<open>
  \<open>before P Q calls\<close>: no call satisfying \<open>Q\<close> comes before the first call satisfying
  \<open>P\<close>; every \<open>Q\<close> call has a \<open>P\<close> call somewhere before it.
\<close>

fun before :: "(call \<Rightarrow> bool) \<Rightarrow> (call \<Rightarrow> bool) \<Rightarrow> call list \<Rightarrow> bool" where
  "before P Q [] = True"
| "before P Q (c # cs) = (if P c then True else \<not> Q c \<and> before P Q cs)"

text \<open>
  The order of the steady phase for a window of \<open>w\<close> requests: the request of sub-batch
  \<open>b\<close> is set up before the wait for the request of sub-batch \<open>b - w\<close>, and posted
  after it.
\<close>

definition pipeline_order :: "int \<Rightarrow> call list \<Rightarrow> bool" where
  "pipeline_order w calls =
     (\<forall>b\<ge>w. before (is_setup b) (is_wait (b - w)) calls
            \<and> before (is_wait (b - w)) (is_post b) calls)"

text \<open>A call that posts a request, whichever way.\<close>

fun posts_request :: "call \<Rightarrow> bool" where
  "posts_request (PostInfer io) = True"
| "posts_request (PostInferPost io) = True"
| "posts_request c = False"

text \<open>The call sites that model.cc wraps in \<^verbatim>\<open>RIE_IGNORE_ABORTED\<close>.\<close>

fun ignore_aborted_site :: "call \<Rightarrow> bool" where
  "ignore_aborted_site Initialize = True"
| "ignore_aborted_site (SetupScopedRuntimeIO io ins outs) = True"
| "ignore_aborted_site StartModelUnsafe = True"
| "ignore_aborted_site StartPing = True"
| "ignore_aborted_site (Finish io) = True"
| "ignore_aborted_site (Infer io) = True"
| "ignore_aborted_site (InferWithProfiling io timestamps) = timestamps"
| "ignore_aborted_site c = False"

text \<open>The calls that hand back no status.\<close>

fun returns_no_status :: "call \<Rightarrow> bool" where
  "returns_no_status AcquireMutex = True"
| "returns_no_status GetSession = True"
| "returns_no_status c = False"


text \<open>
  The call at \<open>position\<close> lets \<open>compute\<close> go on: its status is \<^verbatim>\<open>OK\<close>, or
  \<^verbatim>\<open>ABORTED\<close> at a wrapped site, or it has none.
\<close>

definition passed :: "device \<Rightarrow> nat \<times> call \<Rightarrow> bool" where
  "passed dev pc =
     (case pc of (position, c) \<Rightarrow>
        dev position c = OK \<or> (ignore_aborted_site c \<and> dev position c = ABORTED)
        \<or> returns_no_status c)"

text \<open>
  Every call but the last passed, and the last one passed or its status is the outcome of
  the run.
\<close>

definition fail_stop :: "device \<Rightarrow> outcome \<Rightarrow> call list \<Rightarrow> bool" where
  "fail_stop dev r calls =
     (calls = []
      \<or> (list_all (passed dev) (enumerate 0 (butlast calls))
          \<and> (passed dev (length calls - 1, last calls)
               \<or> r = Returns (dev (length calls - 1) (last calls)))))"

fun allocates_output :: "call \<Rightarrow> bool" where
  "allocates_output (AllocateOutput idx t) = True"
| "allocates_output c = False"

text \<open>
  Either no wrapped site has been reached, or the calls start with the allocation of all
  \<open>n\<close> outputs, in order, and allocate no output afterwards.
\<close>

definition outputs_allocated_first :: "nat \<Rightarrow> call list \<Rightarrow> bool" where
  "outputs_allocated_first n calls =
     (list_all (\<lambda>c. \<not> ignore_aborted_site c) calls
      \<or> (n \<le> length calls
          \<and> list_all allocates_output (take n calls)
          \<and> list_all (\<lambda>c. \<not> allocates_output c) (drop n calls)))"

text \<open>
  The numbers of tokens taken from the semaphore, of tokens handed back to it, and of
  requests posted, in a sequence of calls.
\<close>

definition acquires :: "call list \<Rightarrow> int" where
  "acquires calls = int (count_list calls AcquireSem)"

definition releases :: "call list \<Rightarrow> int" where
  "releases calls = int (count_list calls ReleaseSem)"

definition posts :: "call list \<Rightarrow> int" where
  "posts calls = int (length (filter posts_request calls))"

definition sem_counts :: "call list \<Rightarrow> int \<times> int \<times> int" where
  "sem_counts calls = (acquires calls, releases calls, posts calls)"

text \<open>
  What holds of the tokens wherever a run with a window of \<open>w\<close> requests stops: no more
  tokens are handed back than were taken, at most \<open>w\<close> are taken, and each of the first
  \<open>w\<close> posts has a token taken for it.
\<close>

definition sem_bounds :: "int \<Rightarrow> call list \<Rightarrow> bool" where
  "sem_bounds w calls =
     (releases calls \<le> acquires calls \<and> acquires calls \<le> w
      \<and> min (posts calls) w \<le> acquires calls)"

text \<open>
  What holds of the calls made so far while the outputs are being allocated: each of them
  let \<^verbatim>\<open>compute\<close> go on, and each allocated an output.
\<close>

definition allocating :: "device \<Rightarrow> call list \<Rightarrow> bool" where
  "allocating dev calls =
     (list_all (passed dev) (enumerate 0 calls) \<and> list_all allocates_output calls)"


text \<open>What holds of them when \<^verbatim>\<open>compute\<close> leaves with the outcome \<open>r\<close>.\<close>

definition stopped :: "device \<Rightarrow> nat \<Rightarrow> outcome \<Rightarrow> call list \<Rightarrow> bool" where
  "stopped dev n r calls = (fail_stop dev r calls \<and> outputs_allocated_first n calls)"



section \<open>Sub-batch arithmetic: properties\<close>









text \<open>
  Beyond that range the product of line 255 can wrap around: a runtime batch of
  \<open>2 ^ 62 + 1\<close> rows and a hardware batch of \<open>2 ^ 62\<close> give a negative number of
  sub-batches.
\<close>

lemma num_batches_wraps: "num_batches (2 ^ 62 + 1) (2 ^ 62) = - 2"
  by (simp add: num_batches_def pad_batch_size_def int64_def signed_divide_int_def)



section \<open>Output slices\<close>







section \<open>Rules for blocks of statements\<close>

declare seqs.simps [simp del]

lemma wp_seqs_Nil: "wp (seqs []) Q E s = Q s"
  by (simp add: wp_def seqs.simps)

lemma wp_seqs_Cons: "wp (seqs (a # as)) Q E s = wp a (wp (seqs as) Q E) E s"
  by (simp add: wp_def seqs.simps split: prod.splits)

lemma wp_seqs_append_fun: "wp (seqs (as @ bs)) Q E = wp (seqs as) (wp (seqs bs) Q E) E"
proof (induction as)
  case Nil
  show ?case by (rule ext) (simp add: wp_seqs_Nil)
next
  case (Cons a as)
  show ?case by (rule ext) (simp add: wp_seqs_Cons Cons.IH)
qed

lemma wp_seqs_append: "wp (seqs (as @ bs)) Q E s = wp (seqs as) (wp (seqs bs) Q E) E s"
  by (simp add: wp_seqs_append_fun)

lemma wp_modify: "wp (modify f) Q E s = Q (f s)"
  by (simp add: wp_def modify_def)

lemma wp_reading: "wp (reading g f) Q E s = wp (f (g s)) Q E s"
  by (simp add: wp_def reading_def)

lemma wp_if:
  "wp (if c then a else b) Q E s = ((c \<longrightarrow> wp a Q E s) \<and> (\<not> c \<longrightarrow> wp b Q E s))"
  by simp

lemma wp_return_status:
  "wp (return_status c) Q E s = ((c = OK \<longrightarrow> Q s) \<and> (c \<noteq> OK \<longrightarrow> E (Returns c) s))"
  by (simp add: wp_def return_status_def)

lemma wp_TFNN_ASSERT:
  "e \<noteq> OK \<Longrightarrow>
   wp (TFNN_ASSERT cond e) Q E s = ((cond s \<longrightarrow> Q s) \<and> (\<not> cond s \<longrightarrow> E (Returns e) s))"
  by (simp add: wp_def TFNN_ASSERT_def)

lemma wp_crash_unless:
  "wp (crash_unless cond) Q E s = ((cond s \<longrightarrow> Q s) \<and> (\<not> cond s \<longrightarrow> E Crashes s))"
  by (simp add: wp_def crash_unless_def)

lemma wp_RIE:
  "wp (RIE_IGNORE_ABORTED a) Q E s
     = wp a Q (\<lambda>r s'. if r = Returns ABORTED then Q s' else E r s') s"
  by (simp add: wp_def RIE_IGNORE_ABORTED_def split: prod.splits)

lemma RIE_reading:
  "RIE_IGNORE_ABORTED (reading g f) = reading g (\<lambda>x. RIE_IGNORE_ABORTED (f x))"
  by (rule ext) (simp add: RIE_IGNORE_ABORTED_def reading_def)

lemma wp_ext_call:
  "wp (ext_call dev c) Q E s =
     ((dev (length (trace s)) c = OK \<longrightarrow> Q (s\<lparr>trace := trace s @ [c]\<rparr>))
      \<and> (dev (length (trace s)) c \<noteq> OK \<longrightarrow>
           E (Returns (dev (length (trace s)) c)) (s\<lparr>trace := trace s @ [c]\<rparr>)))"
  by (simp add: wp_def ext_call_def)

lemma wp_RIE_ext_call:
  "wp (RIE_IGNORE_ABORTED (ext_call dev c)) Q E s =
     ((dev (length (trace s)) c = OK \<or> dev (length (trace s)) c = ABORTED \<longrightarrow>
           Q (s\<lparr>trace := trace s @ [c]\<rparr>))
      \<and> (dev (length (trace s)) c \<noteq> OK \<and> dev (length (trace s)) c \<noteq> ABORTED \<longrightarrow>
           E (Returns (dev (length (trace s)) c)) (s\<lparr>trace := trace s @ [c]\<rparr>)))"
  by (auto simp: wp_def RIE_IGNORE_ABORTED_def ext_call_def)

lemma wp_ext_void: "wp (ext_void c) Q E s = Q (s\<lparr>trace := trace s @ [c]\<rparr>)"
  by (simp add: wp_def ext_void_def)

lemma wp_weak_cong: "a = a' \<Longrightarrow> s = s' \<Longrightarrow> wp a Q E s = wp a' Q E s'"
  by simp

lemmas wp_rules =
  wp_seqs_Nil wp_seqs_Cons wp_modify wp_reading wp_if wp_return_status wp_TFNN_ASSERT
  wp_crash_unless RIE_reading wp_RIE_ext_call wp_ext_call wp_ext_void

lemma wp_mono:
  assumes "wp a Q E s" and "\<And>s'. Q s' \<Longrightarrow> Q' s'" and "\<And>r s'. E r s' \<Longrightarrow> E' r s'"
  shows "wp a Q' E' s"
  using assms by (auto simp: wp_def split: prod.splits if_splits)

lemma wp_result:
  assumes "wp a Q E s" and "a s = (r, s')"
  shows "if r = Returns OK then Q s' else E r s'"
  using assms by (simp add: wp_def)

lemma wp_seqs_invariant:
  assumes "\<And>a s. a \<in> set as \<Longrightarrow> I s \<Longrightarrow> wp a I E s" and "I s"
  shows "wp (seqs as) I E s"
  using assms
proof (induction as arbitrary: s)
  case Nil
  then show ?case by (simp add: wp_seqs_Nil)
next
  case (Cons a as)
  have "wp a I E s"
    using Cons.prems by simp
  then show ?case
    unfolding wp_seqs_Cons
  proof (rule wp_mono)
    fix s' assume "I s'"
    then show "wp (seqs as) I E s'"
      using Cons.IH Cons.prems(1) by simp
  qed simp
qed

lemma wp_loop_upto:
  assumes body: "\<And>i s. lo \<le> i \<Longrightarrow> i \<le> hi \<Longrightarrow> I i s \<Longrightarrow> wp (body i) (I (i + 1)) E s"
    and "I lo s" and "lo \<le> hi + 1"
  shows "wp (seqs (map body [lo .. hi])) (I (hi + 1)) E s"
  using assms
proof (induction "nat (hi + 1 - lo)" arbitrary: lo s)
  case 0
  then have "lo = hi + 1" by simp
  then show ?case using 0 by (simp add: wp_seqs_Nil)
next
  case (Suc k)
  then have le: "lo \<le> hi" by simp
  have "wp (body lo) (I (lo + 1)) E s"
    using Suc.prems le by simp
  moreover have "wp (seqs (map body [lo + 1 .. hi])) (I (hi + 1)) E s'" if "I (lo + 1) s'" for s'
    using Suc.hyps(1) [of "lo + 1" s'] Suc.hyps(2) Suc.prems(1) that le by simp
  ultimately show ?case
    unfolding upto_rec1 [OF le] list.map wp_seqs_Cons
    by (rule wp_mono) simp_all
qed

section \<open>The batch planner: properties\<close>

lemma batch_analysis_skipped:
  assumes "length (input_names nd) \<noteq> length (input_batch_axis nd)
           \<or> length (output_names nd) \<noteq> length (output_batch_axis nd)"
  shows "batch_analysis nd ts nout p
           = (if nout = length (output_names nd) then Returns OK else Returns INVALID_ARGUMENT, p)"
  using assms by (auto simp: batch_analysis_def seqs.simps TFNN_ASSERT_def)

lemma nth_list_update_if:
  "xs[i := x] ! j = (if i = j \<and> i < length xs then x else xs ! j)"
  by (cases "i < length xs") (auto simp: nth_list_update list_update_beyond)

lemma initial_plan_invariant: "planner_invariant (initial_plan i n)"
  by (simp add: planner_invariant_def initial_plan_def no_batch_flags_def)

lemma analyse_input_invariant:
  assumes "planner_invariant p"
  shows "wp (analyse_input nd ts idx) planner_invariant (\<lambda>r p'. True) p"
  using assms
  apply (simp only: analyse_input_def Let_def)
  apply (simp add: wp_rules cong: wp_weak_cong)
  apply (auto simp: planner_invariant_def no_batch_flags_def UNINIT_BATCH_SIZE_def
      nth_list_update_if)
  done

lemma analyse_output_invariant:
  assumes "planner_invariant p"
  shows "wp (analyse_output nd idx) planner_invariant (\<lambda>r p'. True) p"
  using assms
  apply (simp only: analyse_output_def store_output_flag_def Let_def)
  apply (simp add: wp_rules cong: wp_weak_cong)
  apply (auto simp: planner_invariant_def no_batch_flags_def UNINIT_BATCH_SIZE_def
      nth_list_update_if)
  done

lemma batch_analysis_invariant:
  assumes "planner_invariant p"
  shows "wp (batch_analysis nd ts nout) planner_invariant (\<lambda>r p'. True) p"
proof -
  let ?block = "seqs (map (analyse_input nd ts) [0..<length ts]
                      @ map (analyse_output nd) [0..<length (output_names nd)])"
  let ?check = "seqs [TFNN_ASSERT (\<lambda>_. nout = length (output_names nd)) INVALID_ARGUMENT]"
  have check: "wp ?check planner_invariant (\<lambda>r p'. True) p'" if "planner_invariant p'" for p'
    using that by (simp add: wp_rules)
  have "wp ?block planner_invariant (\<lambda>r p'. True) p"
    using assms
    by (rule wp_seqs_invariant [rotated])
       (auto simp: analyse_input_invariant analyse_output_invariant)
  then have a: "wp ?block (wp ?check planner_invariant (\<lambda>r p'. True)) (\<lambda>r p'. True) p"
    by (rule wp_mono) (simp_all add: check)
  have b: "wp (seqs []) (wp ?check planner_invariant (\<lambda>r p'. True)) (\<lambda>r p'. True) p"
    using assms by (simp add: wp_seqs_Nil check)
  show ?thesis
    unfolding batch_analysis_def wp_seqs_Cons [of _ "[_]"] wp_if
    using a b by blast
qed

lemma batch_analysis_flags:
  assumes "batch_analysis nd ts nout (initial_plan i n) = (Returns OK, p)"
    and "batch_size p = k_batch_size p"
  shows "no_batch_flags p"
  using wp_result [OF batch_analysis_invariant [OF initial_plan_invariant] assms(1)] assms(2)
  by (simp add: planner_invariant_def)

lemma single_shot_passes_whole_tensors:
  assumes "list_all (passes_whole_tensors env) (trace s)"
  shows "wp (single_shot_path dev env)
           (\<lambda>s'. list_all (passes_whole_tensors env) (trace s'))
           (\<lambda>r s'. list_all (passes_whole_tensors env) (trace s')) s"
  unfolding single_shot_path_def
  using assms
  by (rule wp_seqs_invariant [rotated]) (auto simp: wp_rules)

lemma compute_single_shot:
  assumes "length (input_tensors env) = length (input_names (node_def env))"
    and "get_io_tensor_sizes (node_def env) = Inr sizes"
    and "batch_analysis (node_def env) (input_tensors env) (num_outputs env)
           (initial_plan (length (input_tensors env)) (num_outputs env)) = (Returns OK, p)"
    and "\<not> use_dynamic_batch_size p"
  shows "compute dev env = single_shot_path dev env initial_cstate"
  using assms by (simp add: compute_def)

text \<open>
  C7. When the planner ends with a runtime batch size equal to the hardware batch size,
  no input and no output is marked as carrying the batch dimension, dynamic batching is
  off, \<open>compute\<close> is the single-shot branch, and every call of that branch hands over
  whole tensors: nothing is sliced, zero-filled or copied.
\<close>

theorem equal_batch_sizes_bypass_dynamic_batching:
  assumes "length (input_tensors env) = length (input_names (node_def env))"
    and "get_io_tensor_sizes (node_def env) = Inr sizes"
    and "batch_analysis (node_def env) (input_tensors env) (num_outputs env)
           (initial_plan (length (input_tensors env)) (num_outputs env)) = (Returns OK, p)"
    and "batch_size p = k_batch_size p"
  shows "no_batch_flags p
       \<and> compute dev env = single_shot_path dev env initial_cstate
       \<and> list_all (passes_whole_tensors env) (trace (snd (compute dev env)))"
proof -
  have flags: "no_batch_flags p"
    using assms(3,4) by (rule batch_analysis_flags)
  then have single: "compute dev env = single_shot_path dev env initial_cstate"
    using assms(1-3) by (simp add: compute_single_shot no_batch_flags_def)
  have "wp (single_shot_path dev env)
          (\<lambda>s'. list_all (passes_whole_tensors env) (trace s'))
          (\<lambda>r s'. list_all (passes_whole_tensors env) (trace s')) initial_cstate"
    by (rule single_shot_passes_whole_tensors) (simp add: initial_cstate_def)
  then have "list_all (passes_whole_tensors env)
               (trace (snd (single_shot_path dev env initial_cstate)))"
    by (auto simp: wp_def split: prod.splits if_splits)
  then show ?thesis
    using flags single by simp
qed

lemma example_sizes:
  "get_io_tensor_sizes example_node_def = Inr ([32], [48])"
  by (simp add: get_io_tensor_sizes_def example_node_def_def get_tensor_size_def
      num_elements_def)

lemma example_analysis_4:
  "batch_analysis example_node_def [example_input 4] (Suc 0) (initial_plan (Suc 0) (Suc 0))
     = (Returns OK, \<lparr>batch_size = 4, k_batch_size = 4, is_batch_input_tensors = [False],
                     is_batch_output_tensors = [False], use_dynamic_batch_size = False\<rparr>)"
  by (simp add: batch_analysis_def analyse_input_def analyse_output_def store_output_flag_def
      example_node_def_def example_input_def initial_plan_def seqs.simps reading_def
      TFNN_ASSERT_def crash_unless_def modify_def UNINIT_BATCH_SIZE_def Let_def)

theorem equal_batch_sizes_bypass_dynamic_batching_witness:
  "no_batch_flags \<lparr>batch_size = 4, k_batch_size = 4, is_batch_input_tensors = [False],
                   is_batch_output_tensors = [False], use_dynamic_batch_size = False\<rparr>
   \<and> compute ok_device (example_env 4 2)
       = single_shot_path ok_device (example_env 4 2) initial_cstate
   \<and> list_all (passes_whole_tensors (example_env 4 2))
       (trace (snd (compute ok_device (example_env 4 2))))"
proof -
  let ?p = "\<lparr>batch_size = 4, k_batch_size = 4, is_batch_input_tensors = [False],
             is_batch_output_tensors = [False], use_dynamic_batch_size = False\<rparr>"
  have h1: "length (input_tensors (example_env 4 2))
              = length (input_names (node_def (example_env 4 2)))"
    by (simp add: example_env_def example_node_def_def)
  have h2: "get_io_tensor_sizes (node_def (example_env 4 2)) = Inr ([32], [48])"
    by (simp add: example_env_def example_sizes)
  have h3: "batch_analysis (node_def (example_env 4 2)) (input_tensors (example_env 4 2))
              (num_outputs (example_env 4 2))
              (initial_plan (length (input_tensors (example_env 4 2)))
                 (num_outputs (example_env 4 2))) = (Returns OK, ?p)"
    by (simp add: example_env_def example_analysis_4)
  have h4: "batch_size ?p = k_batch_size ?p"
    by simp
  show ?thesis
    by (rule equal_batch_sizes_bypass_dynamic_batching [OF h1 h2 h3 h4])
qed

text \<open>
  C10. When the batch-axis list of the inputs is not as long as the list of input names,
  or that of the outputs not as long as the list of output names, the analysis block is
  skipped and raises nothing: the plan is left as it was (no tensor marked, dynamic
  batching off), and an invocation that passes the checks around the block runs the
  single-shot branch.
\<close>

theorem mismatched_batch_axis_lists_skip_analysis:
  assumes "length (input_names (node_def env)) \<noteq> length (input_batch_axis (node_def env))
           \<or> length (output_names (node_def env)) \<noteq> length (output_batch_axis (node_def env))"
    and "length (input_tensors env) = length (input_names (node_def env))"
    and "get_io_tensor_sizes (node_def env) = Inr sizes"
    and "num_outputs env = length (output_names (node_def env))"
  shows "batch_analysis (node_def env) (input_tensors env) (num_outputs env) p = (Returns OK, p)
       \<and> no_batch_flags (initial_plan (length (input_tensors env)) (num_outputs env))
       \<and> compute dev env = single_shot_path dev env initial_cstate"
proof -
  have skip: "batch_analysis (node_def env) (input_tensors env) (num_outputs env) p
                = (Returns OK, p)" for p
    using assms(1,4) by (simp add: batch_analysis_skipped)
  have flags: "no_batch_flags (initial_plan (length (input_tensors env)) (num_outputs env))"
    by (simp add: no_batch_flags_def initial_plan_def)
  then have "compute dev env = single_shot_path dev env initial_cstate"
    using assms(2,3) skip by (simp add: compute_single_shot no_batch_flags_def)
  then show ?thesis
    using skip flags by simp
qed

theorem mismatched_batch_axis_lists_skip_analysis_witness:
  "enable_dynamic_batch_size (input_batch_axis (node_def mismatched_axis_env))
   \<and> batch_analysis (node_def mismatched_axis_env) (input_tensors mismatched_axis_env)
        (num_outputs mismatched_axis_env) (initial_plan 1 1)
      = (Returns OK, initial_plan 1 1)
   \<and> compute ok_device mismatched_axis_env
      = single_shot_path ok_device mismatched_axis_env initial_cstate"
proof -
  have h1: "length (input_names (node_def mismatched_axis_env))
              \<noteq> length (input_batch_axis (node_def mismatched_axis_env))
            \<or> length (output_names (node_def mismatched_axis_env))
              \<noteq> length (output_batch_axis (node_def mismatched_axis_env))"
    by (simp add: mismatched_axis_env_def example_node_def_def)
  have h2: "length (input_tensors mismatched_axis_env)
              = length (input_names (node_def mismatched_axis_env))"
    by (simp add: mismatched_axis_env_def example_node_def_def)
  have h3: "get_io_tensor_sizes (node_def mismatched_axis_env) = Inr ([32], [48])"
    by (simp add: mismatched_axis_env_def get_io_tensor_sizes_def example_node_def_def
        get_tensor_size_def num_elements_def)
  have h4: "num_outputs mismatched_axis_env = length (output_names (node_def mismatched_axis_env))"
    by (simp add: mismatched_axis_env_def example_node_def_def)
  have "enable_dynamic_batch_size (input_batch_axis (node_def mismatched_axis_env))"
    by (simp add: mismatched_axis_env_def)
  then show ?thesis
    using mismatched_batch_axis_lists_skip_analysis [OF h1 h2 h3 h4, of "initial_plan 1 1" ok_device]
    by simp
qed

text \<open>
  C9, as the code has it. When the declared name, type and shape lists of the inputs or of
  the outputs differ in length, \<open>compute\<close> fails before any call to the kernel context or
  the device: with a precondition error when the number of input tensors is the number of
  input names, and with an invalid-argument error, from the check of line 167, otherwise.
\<close>

theorem mismatched_metadata_fails_before_any_call:
  assumes "length (input_names (node_def env)) \<noteq> length (input_dtypes (node_def env))
           \<or> length (input_names (node_def env)) \<noteq> length (input_shapes (node_def env))
           \<or> length (output_names (node_def env)) \<noteq> length (output_dtypes (node_def env))
           \<or> length (output_names (node_def env)) \<noteq> length (output_shapes (node_def env))"
  shows "trace (snd (compute dev env)) = []
       \<and> fst (compute dev env)
           = Returns (if length (input_tensors env) = length (input_names (node_def env))
                      then FAILED_PRECONDITION else INVALID_ARGUMENT)"
proof -
  have "get_io_tensor_sizes (node_def env) = Inl FAILED_PRECONDITION"
    using assms by (auto simp: get_io_tensor_sizes_def)
  then show ?thesis
    by (simp add: compute_def initial_cstate_def)
qed

theorem mismatched_metadata_fails_before_any_call_witness:
  "trace (snd (compute ok_device (mismatched_dtypes_env 1))) = []
   \<and> fst (compute ok_device (mismatched_dtypes_env 1)) = Returns FAILED_PRECONDITION"
  using mismatched_metadata_fails_before_any_call [of "mismatched_dtypes_env 1" ok_device]
  by (simp add: mismatched_dtypes_env_def example_node_def_def)

text \<open>
  The claim C9 as the specification states it fails: with two declared input types for one
  input name and two input tensors, the invocation fails with an invalid-argument error,
  not with a precondition error.
\<close>

theorem mismatched_metadata_counterexample:
  "length (input_names (node_def (mismatched_dtypes_env 2)))
     \<noteq> length (input_dtypes (node_def (mismatched_dtypes_env 2)))
   \<and> fst (compute ok_device (mismatched_dtypes_env 2)) = Returns INVALID_ARGUMENT
   \<and> fst (compute ok_device (mismatched_dtypes_env 2)) \<noteq> Returns FAILED_PRECONDITION"
  by (simp add: compute_def mismatched_dtypes_env_def example_node_def_def)

section \<open>The pipeline: rules and example runs\<close>

lemma wp_wait_remaining_Nil: "wp (wait_remaining dev []) Q E s = Q s"
  by (simp add: wp_def)

lemma wp_wait_remaining_Cons:
  "wp (wait_remaining dev (i # is)) Q E s =
     ((scoped_io_queue s = [] \<longrightarrow> Q s)
      \<and> (scoped_io_queue s \<noteq> [] \<longrightarrow> wp (wait_front dev) (wp (wait_remaining dev is) Q E) E s))"
  by (simp add: wp_def split: prod.splits)

lemma wp_total:
  assumes "wp a Q (\<lambda>r s. False) s"
  shows "fst (a s) = Returns OK \<and> Q (snd (a s))"
  using assms by (auto simp: wp_def split: prod.splits if_splits)

lemma wp_always:
  assumes "wp a Q (\<lambda>r. Q) s"
  shows "Q (snd (a s))"
  using assms by (auto simp: wp_def split: prod.splits if_splits)

lemmas body_defs =
  post_one_def wait_one_post_one_def wait_posted_def wait_front_def check_sliced_inputs_def
  setup_outputs_def setup_scoped_runtime_io_def emplace_scoped_io_def pop_scoped_io_def
  push_need_wait_def pop_need_wait_def

lemmas path_defs =
  dynamic_batch_path_def slice_batch_inputs_def slice_batch_input_def emplace_input_def
  locked_section_def post_all_def profile_run_def body_defs

lemma example_analysis_dynamic:
  "rows \<noteq> 4 \<Longrightarrow> 0 < rows \<Longrightarrow>
   batch_analysis example_node_def [example_input rows] (Suc 0) (initial_plan (Suc 0) (Suc 0))
     = (Returns OK, example_plan rows)"
  by (simp add: batch_analysis_def analyse_input_def analyse_output_def store_output_flag_def
      example_node_def_def example_input_def initial_plan_def example_plan_def seqs.simps
      reading_def TFNN_ASSERT_def crash_unless_def modify_def UNINIT_BATCH_SIZE_def Let_def)

lemma example_node_def_fields:
  "input_names example_node_def = [''x'']" "input_dtypes example_node_def = [4]"
  "input_shapes example_node_def = [[4, 2]]" "output_names example_node_def = [''y'']"
  "output_dtypes example_node_def = [4]" "output_shapes example_node_def = [[4, 3]]"
  "input_batch_axis example_node_def = [0]" "output_batch_axis example_node_def = [0]"
  by (simp_all add: example_node_def_def)

lemma example_compute_dynamic:
  assumes "rows \<noteq> 4" and "0 < rows"
  shows "compute dev (example_env rows m)
     = dynamic_batch_path dev (example_env rows m) (example_plan rows) initial_cstate"
proof -
  have "use_dynamic_batch_size (example_plan rows)"
    by (simp add: example_plan_def)
  then show ?thesis
    using assms
    by (simp add: compute_def example_env_def example_sizes example_analysis_dynamic
        example_node_def_fields)
qed

lemma example_numbers:
  "num_batches 8 4 = 2" "pad_batch_size 8 4 = 8" "window_size 2 2 = 2"
  "num_batches 10 4 = 3" "pad_batch_size 10 4 = 12" "window_size 2 3 = 2"
  by (simp_all add: num_batches_def pad_batch_size_def int64_def signed_divide_int_def
      window_size_def)

lemma upto_small: "[0 .. 0] = [0::int]" "[0 .. 1] = [0, 1::int]" "[0 .. 2] = [0, 1, 2::int]"
  "[1 .. 2] = [1, 2::int]" "[2 .. 1] = ([]::int list)" "[2 .. 2] = [2::int]"
  by (simp_all add: upto_rec1)

lemma check_example_input:
  "check_input_tensors [t] example_node_def
     = (if tensor_data_size t = 32 then OK else INTERNAL)"
  by (simp add: check_input_tensors_def example_sizes) (simp add: example_node_def_def)

lemma replicate_small: "replicate 2 x = [x, x]" "replicate 3 x = [x, x, x]"
  by (simp_all add: numeral_2_eq_2 numeral_3_eq_3)

lemmas example_simps =
  example_env_def example_plan_def example_numbers upto_small Let_def
  wp_rules wp_wait_remaining_Nil wp_wait_remaining_Cons initial_cstate_def
  sliced_inputs_def output_tensors_def output_slices_def batch_output_tensor_def
  check_example_input example_input_def example_node_def_fields replicate_small
  tensor_data_size_def num_elements_def Slice_def set_dim0_def empty_tensor_def

lemma example_run_10:
  "fst (compute ok_device (example_env 10 2)) = Returns OK
   \<and> trace (snd (compute ok_device (example_env 10 2))) =
     [AllocateOutput 0 \<lparr>dtype_size = 4, shape = [10, 3], buf = OutputBuf 0, row0 = 0\<rparr>,
      TensorMemset \<lparr>dtype_size = 4, shape = [2, 2], buf = PadBuf 2 0, row0 = 2\<rparr>,
      TensorMemcpy \<lparr>dtype_size = 4, shape = [4, 2], buf = PadBuf 2 0, row0 = 0\<rparr>
        \<lparr>dtype_size = 4, shape = [2, 2], buf = InputBuf 0, row0 = 8\<rparr>,
      Initialize, GetSession, AcquireMutex, StartModelUnsafe, StartPing,
      SetupScopedRuntimeIO (Queued 0)
        [\<lparr>dtype_size = 4, shape = [4, 2], buf = InputBuf 0, row0 = 0\<rparr>]
        [\<lparr>dtype_size = 4, shape = [4, 3], buf = OutputBuf 0, row0 = 0\<rparr>],
      AcquireSem, SetupInfer (Queued 0) 0, PostInfer (Queued 0),
      SetupScopedRuntimeIO (Queued 1)
        [\<lparr>dtype_size = 4, shape = [4, 2], buf = InputBuf 0, row0 = 4\<rparr>]
        [\<lparr>dtype_size = 4, shape = [4, 3], buf = OutputBuf 0, row0 = 4\<rparr>],
      AcquireSem, SetupInferPost (Queued 1) 1, PostInferPost (Queued 1),
      SetupScopedRuntimeIO (Queued 2)
        [\<lparr>dtype_size = 4, shape = [4, 2], buf = PadBuf 2 0, row0 = 0\<rparr>]
        [\<lparr>dtype_size = 4, shape = [2, 3], buf = OutputBuf 0, row0 = 8\<rparr>],
      SetupInferPost (Queued 2) 2, WaitInfer (Queued 0), PostInferPost (Queued 2),
      Finish (Queued 0), WaitInferPost (Queued 1), WaitInferPost (Queued 2),
      InferWait (Queued 1), ReleaseSem, Finish (Queued 1),
      InferWait (Queued 2), ReleaseSem, Finish (Queued 2)]"
  unfolding example_compute_dynamic [of 10, simplified]
  by (rule wp_total) (simp add: path_defs example_simps ok_device_def cong: wp_weak_cong)

lemma example_run_8:
  "fst (compute ok_device (example_env 8 2)) = Returns OK
   \<and> trace (snd (compute ok_device (example_env 8 2))) =
     [AllocateOutput 0 \<lparr>dtype_size = 4, shape = [8, 3], buf = OutputBuf 0, row0 = 0\<rparr>,
      TensorMemset \<lparr>dtype_size = 4, shape = [0, 2], buf = PadBuf 1 0, row0 = 4\<rparr>,
      TensorMemcpy \<lparr>dtype_size = 4, shape = [4, 2], buf = PadBuf 1 0, row0 = 0\<rparr>
        \<lparr>dtype_size = 4, shape = [4, 2], buf = InputBuf 0, row0 = 4\<rparr>,
      Initialize, GetSession, AcquireMutex, StartModelUnsafe, StartPing,
      SetupScopedRuntimeIO (Queued 0)
        [\<lparr>dtype_size = 4, shape = [4, 2], buf = InputBuf 0, row0 = 0\<rparr>]
        [\<lparr>dtype_size = 4, shape = [4, 3], buf = OutputBuf 0, row0 = 0\<rparr>],
      AcquireSem, SetupInferPost (Queued 0) 0, PostInferPost (Queued 0),
      SetupScopedRuntimeIO (Queued 1)
        [\<lparr>dtype_size = 4, shape = [4, 2], buf = PadBuf 1 0, row0 = 0\<rparr>]
        [\<lparr>dtype_size = 4, shape = [4, 3], buf = OutputBuf 0, row0 = 4\<rparr>],
      AcquireSem, SetupInferPost (Queued 1) 1, PostInferPost (Queued 1),
      WaitInferPost (Queued 0), WaitInferPost (Queued 1),
      InferWait (Queued 0), ReleaseSem, Finish (Queued 0),
      InferWait (Queued 1), ReleaseSem, Finish (Queued 1)]"
  unfolding example_compute_dynamic [of 8, simplified]
  by (rule wp_total) (simp add: path_defs example_simps ok_device_def cong: wp_weak_cong)

section \<open>The request builder: properties\<close>

text \<open>
  C5, as the code has it. For an input that carries the batch dimension, the buffer of the
  last sub-batch is always a fresh one of the hardware batch size, zero-filled at its tail
  and copied into, whether or not the runtime batch size is a multiple of the hardware
  batch size; for every earlier sub-batch it is a slice that shares the buffer of the input
  tensor, and nothing is copied. An input without the batch dimension gets a placeholder.
\<close>

theorem padded_copy_for_every_last_sub_batch:
  assumes "slice_batch_input dev ts p batch_idx idx s = (Returns OK, s')"
    and "nat batch_idx < length (batches_neuron_input_tensors s)"
  shows
    "(is_batch_input_tensors p ! idx
        \<and> batch_idx = num_batches (batch_size p) (k_batch_size p) - 1 \<longrightarrow>
       last (batches_neuron_input_tensors s' ! nat batch_idx)
         = \<lparr>dtype_size = dtype_size (ts ! idx),
            shape = set_dim0 (shape (ts ! idx)) (k_batch_size p),
            buf = PadBuf batch_idx idx, row0 = 0\<rparr>
       \<and> trace s' = trace s @
           [TensorMemset
              (Slice \<lparr>dtype_size = dtype_size (ts ! idx),
                       shape = set_dim0 (shape (ts ! idx)) (k_batch_size p),
                       buf = PadBuf batch_idx idx, row0 = 0\<rparr>
                 (k_batch_size p
                    - (pad_batch_size (batch_size p) (k_batch_size p) - batch_size p))
                 (k_batch_size p)),
            TensorMemcpy
              \<lparr>dtype_size = dtype_size (ts ! idx),
                shape = set_dim0 (shape (ts ! idx)) (k_batch_size p),
                buf = PadBuf batch_idx idx, row0 = 0\<rparr>
              (Slice (ts ! idx) (batch_idx * k_batch_size p) (batch_size p))])
     \<and> (is_batch_input_tensors p ! idx
        \<and> batch_idx \<noteq> num_batches (batch_size p) (k_batch_size p) - 1 \<longrightarrow>
       last (batches_neuron_input_tensors s' ! nat batch_idx)
         = Slice (ts ! idx) (batch_idx * k_batch_size p)
             (batch_idx * k_batch_size p + k_batch_size p)
       \<and> buf (last (batches_neuron_input_tensors s' ! nat batch_idx)) = buf (ts ! idx)
       \<and> trace s' = trace s)
     \<and> (\<not> is_batch_input_tensors p ! idx \<longrightarrow>
       last (batches_neuron_input_tensors s' ! nat batch_idx) = empty_tensor
       \<and> trace s' = trace s)"
  using assms
  by (auto simp: slice_batch_input_def emplace_input_def Let_def seqs.simps modify_def
      ext_call_def Slice_def split: if_splits)

theorem padded_copy_for_every_last_sub_batch_witness:
  "last (batches_neuron_input_tensors
           (snd (slice_batch_input ok_device [example_input 8] (example_plan 8) 1 0
                   (initial_cstate\<lparr>batches_neuron_input_tensors := [[], []]\<rparr>))) ! 1)
     = \<lparr>dtype_size = 4, shape = [4, 2], buf = PadBuf 1 0, row0 = 0\<rparr>
   \<and> buf (last (batches_neuron_input_tensors
           (snd (slice_batch_input ok_device [example_input 8] (example_plan 8) 0 0
                   (initial_cstate\<lparr>batches_neuron_input_tensors := [[], []]\<rparr>))) ! 0))
     = InputBuf 0"
proof -
  let ?s = "initial_cstate\<lparr>batches_neuron_input_tensors := [[], []]\<rparr>"
  have ok: "fst (slice_batch_input ok_device [example_input 8] (example_plan 8) b 0 ?s)
              = Returns OK" for b
    by (simp add: slice_batch_input_def emplace_input_def Let_def seqs.simps modify_def
        ext_call_def ok_device_def)
  have run: "slice_batch_input ok_device [example_input 8] (example_plan 8) b 0 ?s
      = (Returns OK, snd (slice_batch_input ok_device [example_input 8] (example_plan 8) b 0 ?s))"
    for b
    using ok [of b] by (metis prod.collapse)
  have len: "nat b < length (batches_neuron_input_tensors ?s)" if "b \<le> 1" for b :: int
    using that by simp
  show ?thesis
    using padded_copy_for_every_last_sub_batch [OF run [of 1] len [of 1]]
      padded_copy_for_every_last_sub_batch [OF run [of 0] len [of 0]]
    by (simp add: example_plan_def example_numbers example_input_def set_dim0_def Slice_def)
qed

text \<open>
  The claim C5 as the specification states it fails: with 8 runtime rows and a hardware
  batch of 4 rows, an exact multiple, the last sub-batch is still handed to the device in
  a fresh padded buffer that the rows 4 to 7 of the input were copied into.
\<close>

theorem padded_copy_counterexample:
  "(8::int) mod 4 = 0
   \<and> trace (snd (compute ok_device (example_env 8 2))) ! 2
       = TensorMemcpy \<lparr>dtype_size = 4, shape = [4, 2], buf = PadBuf 1 0, row0 = 0\<rparr>
           \<lparr>dtype_size = 4, shape = [4, 2], buf = InputBuf 0, row0 = 4\<rparr>
   \<and> trace (snd (compute ok_device (example_env 8 2))) ! 12
       = SetupScopedRuntimeIO (Queued 1)
           [\<lparr>dtype_size = 4, shape = [4, 2], buf = PadBuf 1 0, row0 = 0\<rparr>]
           [\<lparr>dtype_size = 4, shape = [4, 3], buf = OutputBuf 0, row0 = 4\<rparr>]"
  by (simp add: example_run_8)

section \<open>The pipeline: the queue of posted requests\<close>

lemma wp_seqs_appendI:
  assumes "wp (seqs as) R E s" and "\<And>s'. R s' \<Longrightarrow> wp (seqs bs) Q E s'"
  shows "wp (seqs (as @ bs)) Q E s"
  unfolding wp_seqs_append using assms(1)
  by (rule wp_mono) (simp_all add: assms(2))

lemma filter_upto_snoc:
  "lo \<le> k \<Longrightarrow> filter P [lo .. k] = filter P [lo .. k - 1] @ (if P k then [k] else [])"
  by (simp add: upto_rec2)

lemma filter_ge_upto:
  assumes "0 \<le> a"
  shows "filter (\<lambda>b. a \<le> b) [0 .. m] = [a .. m]"
proof (cases "a \<le> m")
  case True
  have "[0 .. m] = [0 .. a - 1] @ [a .. m]"
    using assms True by (rule upto_split1)
  moreover have "filter (\<lambda>b. a \<le> b) [0 .. a - 1] = []"
    by (auto simp: filter_empty_conv)
  moreover have "filter (\<lambda>b. a \<le> b) [a .. m] = [a .. m]"
    by (auto simp: filter_id_conv)
  ultimately show ?thesis by simp
next
  case False
  then show ?thesis by (auto simp: filter_empty_conv)
qed

lemma post_one_need_wait:
  assumes "need_wait_infer_post s = filter (\<lambda>b. first \<le> b) [0 .. k - 1]" and "0 \<le> k"
  shows "wp (post_one dev env p first k)
           (\<lambda>s'. need_wait_infer_post s' = filter (\<lambda>b. first \<le> b) [0 .. k + 1 - 1])
           (\<lambda>r s'. True) s"
  using assms
  by (simp add: body_defs wp_rules filter_upto_snoc cong: wp_weak_cong)

lemma wait_one_post_one_need_wait:
  assumes "need_wait_infer_post s = filter (\<lambda>b. first \<le> b) [0 .. k - 1]" and "0 \<le> k"
  shows "wp (wait_one_post_one dev env p first k)
           (\<lambda>s'. need_wait_infer_post s' = filter (\<lambda>b. first \<le> b) [0 .. k + 1 - 1])
           (\<lambda>r s'. True) s"
  using assms
  by (simp add: body_defs wp_rules filter_upto_snoc cong: wp_weak_cong)

lemma post_all_need_wait:
  assumes "need_wait_infer_post s = []" and "0 \<le> w" and "w \<le> n"
  shows "wp (post_all dev env p n w)
           (\<lambda>s'. need_wait_infer_post s' = [n - w .. n - 1]) (\<lambda>r s'. True) s"
proof -
  let ?I = "\<lambda>k s'. 0 \<le> k \<and> need_wait_infer_post s' = filter (\<lambda>b. n - w \<le> b) [0 .. k - 1]"
  let ?E = "\<lambda>(r::outcome) (s'::cstate). True"
  have start: "wp (seqs [ext_void AcquireMutex,
                    RIE_IGNORE_ABORTED (ext_call dev StartModelUnsafe),
                    RIE_IGNORE_ABORTED (ext_call dev StartPing)]) (?I 0) ?E s"
    using assms(1) by (simp add: wp_rules cong: wp_weak_cong)
  have fill: "wp (seqs (map (post_one dev env p (n - w)) [0 .. w - 1])) (?I (w - 1 + 1)) ?E s'"
    if "?I 0 s'" for s'
    using that assms(2)
    by (intro wp_loop_upto [where I = ?I]) (auto intro: wp_mono [OF post_one_need_wait])
  have steady: "wp (seqs (map (wait_one_post_one dev env p (n - w)) [w .. n - 1]))
                  (?I (n - 1 + 1)) ?E s'"
    if "?I w s'" for s'
    using that assms(3)
    by (intro wp_loop_upto [where I = ?I])
       (auto intro: wp_mono [OF wait_one_post_one_need_wait])
  have "wp (post_all dev env p n w) (?I n) ?E s"
    unfolding post_all_def Let_def
    apply (rule wp_seqs_appendI [OF start])
    apply (rule wp_seqs_appendI [OF fill])
     apply assumption
    using steady apply simp
    done
  then show ?thesis
    by (rule wp_mono) (use assms in \<open>simp_all add: filter_ge_upto\<close>)
qed

lemma window_size_bounds:
  assumes "1 \<le> n"
  shows "1 \<le> window_size m n" and "window_size m n \<le> n"
  using assms by (simp_all add: window_size_def)

text \<open>
  C4. With \<open>1 \<le> w \<le> n\<close>, when the posting of all \<open>n\<close> requests goes through without
  an error, the queue of posted requests holds exactly the sub-batches \<open>n - w .. n - 1\<close>,
  that is \<open>w\<close> of them, so the check of its length against the window size passes and
  its internal error is not raised.
\<close>

theorem posted_queue_length_is_window_size:
  assumes "1 \<le> w" and "w \<le> n" and "need_wait_infer_post s = []"
    and "post_all dev env p n w s = (Returns OK, s')"
  shows "need_wait_infer_post s' = [n - w .. n - 1]
       \<and> int (length (need_wait_infer_post s')) = w
       \<and> length (filter (\<lambda>b. n - w \<le> b) [0 .. n - 1]) = nat w
       \<and> TFNN_ASSERT (\<lambda>s. int (length (need_wait_infer_post s)) = w) INTERNAL s'
           = (Returns OK, s')"
proof -
  have "wp (post_all dev env p n w)
          (\<lambda>s'. need_wait_infer_post s' = [n - w .. n - 1]) (\<lambda>r s'. True) s"
    using assms(1-3) by (intro post_all_need_wait) simp_all
  then have queue: "need_wait_infer_post s' = [n - w .. n - 1]"
    using assms(4) by (simp add: wp_def)
  then have len: "int (length (need_wait_infer_post s')) = w"
    using assms(1,2) by simp
  have "filter (\<lambda>b. n - w \<le> b) [0 .. n - 1] = [n - w .. n - 1]"
    using assms(2) by (intro filter_ge_upto) simp
  then have "length (filter (\<lambda>b. n - w \<le> b) [0 .. n - 1]) = nat w"
    using assms(1,2) by simp
  then show ?thesis
    using queue len by (simp add: TFNN_ASSERT_def)
qed

theorem posted_queue_length_is_window_size_witness:
  "need_wait_infer_post
     (snd (post_all ok_device (example_env 10 2) (example_plan 10) 3 2
             example_state_before_lock)) = [1, 2]
   \<and> fst (post_all ok_device (example_env 10 2) (example_plan 10) 3 2
             example_state_before_lock) = Returns OK"
proof -
  let ?run = "post_all ok_device (example_env 10 2) (example_plan 10) 3 2
                example_state_before_lock"
  have "wp (post_all ok_device (example_env 10 2) (example_plan 10) 3 2) (\<lambda>s. True)
          (\<lambda>r s. False) example_state_before_lock"
    by (simp add: path_defs example_simps example_state_before_lock_def ok_device_def
        cong: wp_weak_cong)
  then have ok: "fst ?run = Returns OK"
    by (simp add: wp_total)
  then have run: "?run = (Returns OK, snd ?run)"
    by (metis prod.collapse)
  have "need_wait_infer_post example_state_before_lock = []"
    by (simp add: example_state_before_lock_def initial_cstate_def)
  then show ?thesis
    using posted_queue_length_is_window_size [OF _ _ _ run] ok
    by (simp add: upto_rec1)
qed

section \<open>The pipeline: order of set-up, wait and post\<close>

declare wait_remaining.simps [simp del]

lemma hd_upto: "i \<le> j \<Longrightarrow> hd [i .. j] = i"
  by (simp add: upto_rec1)

lemma tl_upto: "i \<le> j \<Longrightarrow> tl [i .. j] = [i + 1 .. j]"
  by (simp add: upto_rec1)

lemma last_upto: "i \<le> j \<Longrightarrow> last [i .. j] = j"
  by (simp add: upto_rec2)

lemma upto_shift: "[b - w + 1 .. b] = [b + 1 - w .. b]"
  by (simp add: algebra_simps)

lemma upto_snoc: "i \<le> j \<Longrightarrow> [i .. j - 1] @ [j] = [i .. j]"
  by (simp add: upto_rec2)

lemma before_append:
  "before P Q (xs @ ys) = (before P Q xs \<and> (list_ex P xs \<or> before P Q ys))"
  by (induction xs) auto

lemma pipeline_order_Nil: "pipeline_order w []"
  by (simp add: pipeline_order_def)

lemma pipeline_order_append:
  assumes "pipeline_order w xs" and "pipeline_order w ys"
  shows "pipeline_order w (xs @ ys)"
  using assms by (simp add: pipeline_order_def before_append)

lemma post_one_order:
  assumes "pipeline_order w (trace s)" and "scoped_io_queue s = [0 .. k - 1]"
    and "0 \<le> k" and "k < w"
  shows "wp (post_one dev env p first k)
           (\<lambda>s'. pipeline_order w (trace s') \<and> scoped_io_queue s' = [0 .. k + 1 - 1])
           (\<lambda>r s'. pipeline_order w (trace s')) s"
  using assms
  apply (simp add: body_defs wp_rules upto_snoc last_upto cong: wp_weak_cong)
  apply (intro conjI impI pipeline_order_append; simp add: pipeline_order_def last_upto)
  done

lemma wait_one_post_one_order:
  assumes "pipeline_order w (trace s)" and "scoped_io_queue s = [b - w .. b - 1]"
    and "1 \<le> w" and "w \<le> b"
  shows "wp (wait_one_post_one dev env p first b)
           (\<lambda>s'. pipeline_order w (trace s') \<and> scoped_io_queue s' = [b + 1 - w .. b + 1 - 1])
           (\<lambda>r s'. pipeline_order w (trace s')) s"
  using assms
  apply (simp add: body_defs wp_rules upto_snoc hd_upto tl_upto last_upto cong: wp_weak_cong)
  apply (intro conjI impI pipeline_order_append; simp add: pipeline_order_def last_upto upto_shift)
  done

lemma post_all_order:
  assumes "pipeline_order w (trace s)" and "scoped_io_queue s = []"
    and "1 \<le> w" and "w \<le> n"
  shows "wp (post_all dev env p n w) (\<lambda>s'. pipeline_order w (trace s'))
           (\<lambda>r s'. pipeline_order w (trace s')) s"
proof -
  let ?E = "\<lambda>(r::outcome) s'. pipeline_order w (trace s')"
  let ?I = "\<lambda>k s'. 0 \<le> k \<and> k \<le> w \<and> pipeline_order w (trace s')
                     \<and> scoped_io_queue s' = [0 .. k - 1]"
  let ?J = "\<lambda>b s'. w \<le> b \<and> pipeline_order w (trace s')
                     \<and> scoped_io_queue s' = [b - w .. b - 1]"
  have start: "wp (seqs [ext_void AcquireMutex,
                    RIE_IGNORE_ABORTED (ext_call dev StartModelUnsafe),
                    RIE_IGNORE_ABORTED (ext_call dev StartPing)]) (?I 0) ?E s"
    using assms
    by (simp add: wp_rules cong: wp_weak_cong)
       (auto simp: pipeline_order_def before_append)
  have fill: "wp (seqs (map (post_one dev env p (n - w)) [0 .. w - 1])) (?I (w - 1 + 1)) ?E s'"
    if "?I 0 s'" for s'
    using that assms(3)
    by (intro wp_loop_upto [where I = ?I]) (auto intro: wp_mono [OF post_one_order])
  have steady: "wp (seqs (map (wait_one_post_one dev env p (n - w)) [w .. n - 1]))
                  (?J (n - 1 + 1)) ?E s'"
    if "?J w s'" for s'
    using that assms(3,4)
    by (intro wp_loop_upto [where I = ?J])
       (auto intro: wp_mono [OF wait_one_post_one_order])
  have "wp (post_all dev env p n w) (?J (n - 1 + 1)) ?E s"
    unfolding post_all_def Let_def
    apply (rule wp_seqs_appendI [OF start])
    apply (rule wp_seqs_appendI [OF fill])
     apply assumption
    apply (rule steady)
    apply simp
    done
  then show ?thesis
    by (rule wp_mono) simp_all
qed

lemma order_snoc:
  assumes "pipeline_order w calls"
    and "\<forall>c\<in>set new. \<not> posts_request c \<and> (\<forall>b. \<not> is_wait b c)"
  shows "pipeline_order w (calls @ new)"
proof -
  have "\<not> is_post b c" if "c \<in> set new" for b c
    using assms(2) that by (cases c) auto
  then have "before P (is_post b) new" for P b
    by (induction new) auto
  moreover have "before P (is_wait b) new" for P b
    using assms(2) by (induction new) auto
  ultimately have "pipeline_order w new"
    by (simp add: pipeline_order_def)
  then show ?thesis
    using assms(1) by (rule pipeline_order_append [rotated])
qed

lemma wait_front_order:
  assumes "pipeline_order w (trace s)"
  shows "wp (wait_front dev) (\<lambda>s'. pipeline_order w (trace s'))
           (\<lambda>r s'. pipeline_order w (trace s')) s"
  using assms
  by (simp add: body_defs wp_rules order_snoc cong: wp_weak_cong)

lemma wait_remaining_order:
  assumes "pipeline_order w (trace s)"
  shows "wp (wait_remaining dev is) (\<lambda>s'. pipeline_order w (trace s'))
           (\<lambda>r s'. pipeline_order w (trace s')) s"
  using assms
proof (induction "is" arbitrary: s)
  case Nil
  then show ?case by (simp add: wp_wait_remaining_Nil)
next
  case (Cons i "is")
  have "wp (wait_front dev)
          (wp (wait_remaining dev is) (\<lambda>s'. pipeline_order w (trace s'))
             (\<lambda>r s'. pipeline_order w (trace s')))
          (\<lambda>r s'. pipeline_order w (trace s')) s"
    by (rule wp_mono [OF wait_front_order [OF Cons.prems]]) (simp_all add: Cons.IH)
  then show ?case
    using Cons.prems by (simp add: wp_wait_remaining_Cons)
qed

lemma locked_section_order:
  assumes "pipeline_order w (trace s)" and "scoped_io_queue s = []"
    and "1 \<le> w" and "w \<le> n"
  shows "wp (locked_section dev env p n w) (\<lambda>s'. pipeline_order w (trace s'))
           (\<lambda>r s'. pipeline_order w (trace s')) s"
proof -
  have rest: "wp (seqs (TFNN_ASSERT (\<lambda>s. int (length (need_wait_infer_post s)) = w) INTERNAL
                  # map (\<lambda>wait_bidx. wait_posted dev) [0 .. w - 1]))
                (\<lambda>s'. pipeline_order w (trace s')) (\<lambda>r s'. pipeline_order w (trace s')) s'"
    if "pipeline_order w (trace s')" for s'
    using that
    by (rule wp_seqs_invariant [rotated])
       (auto simp: body_defs wp_rules order_snoc cong: wp_weak_cong)
  show ?thesis
    unfolding locked_section_def append_Cons append_Nil wp_seqs_Cons [of "post_all dev env p n w"]
    by (rule wp_mono [OF post_all_order [OF assms]]) (simp_all add: rest)
qed

text \<open>With no sub-batch at all the two posting loops and the loop of waits are empty.\<close>

lemma locked_section_order_empty:
  assumes "pipeline_order w (trace s)" and "w \<le> 0" and "n \<le> w"
  shows "wp (locked_section dev env p n w) (\<lambda>s'. pipeline_order w (trace s'))
           (\<lambda>r s'. pipeline_order w (trace s')) s"
  using assms
  by (simp add: locked_section_def post_all_def wp_rules order_snoc cong: wp_weak_cong)

lemma before_lock_order:
  assumes "pipeline_order w (trace s)" and "scoped_io_queue s = []"
  shows "wp (seqs ([crash_unless (\<lambda>_. k_batch_size p \<noteq> 0)]
            @ map (\<lambda>idx. ext_call dev
                     (AllocateOutput idx (batch_output_tensor (node_def env) p idx)))
                [0..<num_outputs env]
            @ [slice_batch_inputs dev (input_tensors env) p,
               RIE_IGNORE_ABORTED (ext_call dev Initialize),
               ext_void GetSession,
               (if profile_enabled env then profile_run dev env p else seqs []),
               modify (\<lambda>s. s\<lparr>batches_sliced_outputs := replicate (nat n) []\<rparr>)]))
           (\<lambda>s'. pipeline_order w (trace s') \<and> scoped_io_queue s' = [])
           (\<lambda>r s'. pipeline_order w (trace s')) s"
proof -
  let ?I = "\<lambda>s'. pipeline_order w (trace s') \<and> scoped_io_queue s' = []"
  let ?E = "\<lambda>(r::outcome) s'. pipeline_order w (trace s')"
  have slice: "wp (slice_batch_inputs dev (input_tensors env) p) ?I ?E s'" if "?I s'" for s'
    unfolding slice_batch_inputs_def Let_def
    using that
    by (rule wp_seqs_invariant [rotated])
       (auto simp: slice_batch_input_def emplace_input_def Let_def wp_rules order_snoc
          cong: wp_weak_cong)
  have profile: "wp (profile_run dev env p) ?I ?E s'" if "?I s'" for s'
    unfolding profile_run_def
    using that
    by (rule wp_seqs_invariant [rotated])
       (auto simp: check_sliced_inputs_def wp_rules order_snoc cong: wp_weak_cong)
  show ?thesis
    using assms
    by (intro wp_seqs_invariant [where I = ?I])
       (auto simp: slice profile wp_rules order_snoc cong: wp_weak_cong)
qed

lemma dynamic_batch_path_order:
  assumes "1 \<le> batch_size p" and "1 \<le> k_batch_size p"
    and "w = window_size (max_num_infers env) (num_batches (batch_size p) (k_batch_size p))"
  shows "pipeline_order w (trace (snd (dynamic_batch_path dev env p initial_cstate)))"
proof -
  let ?n = "num_batches (batch_size p) (k_batch_size p)"
  let ?PO = "\<lambda>s'. pipeline_order w (trace s')"
  have init: "pipeline_order w (trace initial_cstate)" "scoped_io_queue initial_cstate = []"
    by (simp_all add: initial_cstate_def pipeline_order_Nil)
  have locked: "wp (locked_section dev env p ?n w) ?PO (\<lambda>r. ?PO) s'"
    if "?PO s' \<and> scoped_io_queue s' = []" for s'
  proof (cases "1 \<le> ?n")
    case True
    then have "1 \<le> w" "w \<le> ?n"
      using window_size_bounds [OF True] assms(3) by simp_all
    then show ?thesis
      using that by (intro locked_section_order) simp_all
  next
    case False
    then have "w \<le> 0" "?n \<le> w"
      using assms(3) by (simp_all add: window_size_def)
    then show ?thesis
      using that by (intro locked_section_order_empty) simp_all
  qed
  have tail: "wp (seqs [locked_section dev env p ?n w, wait_remaining dev [0 .. w - 1]])
                ?PO (\<lambda>r. ?PO) s'"
    if "?PO s' \<and> scoped_io_queue s' = []" for s'
    unfolding wp_seqs_Cons wp_seqs_Nil
    by (rule wp_mono [OF locked [OF that]])
       (simp_all add: wait_remaining_order wp_mono [OF wait_remaining_order])
  have "wp (dynamic_batch_path dev env p) ?PO (\<lambda>r. ?PO) initial_cstate"
    unfolding dynamic_batch_path_def Let_def assms(3) [symmetric]
    using wp_seqs_appendI [OF before_lock_order [OF init, of p dev env ?n] tail]
    by simp
  then show ?thesis
    by (rule wp_always)
qed

text \<open>
  C1, as the code has it. In the steady phase, for every sub-batch \<open>b\<close> from the window
  size on, the request of \<open>b\<close> is set up before the wait for the request of sub-batch
  \<open>b - w\<close>, the oldest outstanding one, and it is posted after that wait: in the
  sequence of device calls the set-up of \<open>b\<close> precedes the wait for \<open>b - w\<close>, which
  precedes the post of \<open>b\<close>. This holds of every run, also one that an error cuts short.
\<close>

theorem steady_phase_waits_before_posting:
  assumes "1 \<le> batch_size p" and "1 \<le> k_batch_size p"
    and "w = window_size (max_num_infers env) (num_batches (batch_size p) (k_batch_size p))"
    and "w \<le> b"
  shows "before (is_setup b) (is_wait (b - w))
           (trace (snd (dynamic_batch_path dev env p initial_cstate)))
       \<and> before (is_wait (b - w)) (is_post b)
           (trace (snd (dynamic_batch_path dev env p initial_cstate)))"
  using dynamic_batch_path_order [OF assms(1-3), of dev] assms(4)
  by (simp add: pipeline_order_def)

theorem steady_phase_waits_before_posting_witness:
  "before (is_setup 2) (is_wait 0)
     (trace (snd (dynamic_batch_path ok_device (example_env 10 2) (example_plan 10)
                    initial_cstate)))
   \<and> before (is_wait 0) (is_post 2)
     (trace (snd (dynamic_batch_path ok_device (example_env 10 2) (example_plan 10)
                    initial_cstate)))
   \<and> list_ex (is_post 2)
     (trace (snd (dynamic_batch_path ok_device (example_env 10 2) (example_plan 10)
                    initial_cstate)))"
proof -
  have h: "1 \<le> batch_size (example_plan 10)" "1 \<le> k_batch_size (example_plan 10)"
    "2 = window_size (max_num_infers (example_env 10 2))
           (num_batches (batch_size (example_plan 10)) (k_batch_size (example_plan 10)))"
    "(2::int) \<le> 2"
    by (simp_all add: example_plan_def example_env_def example_numbers)
  have "list_ex (is_post 2) (trace (snd (compute ok_device (example_env 10 2))))"
    by (simp add: example_run_10)
  then show ?thesis
    using steady_phase_waits_before_posting [OF h, of ok_device]
    by (simp add: example_compute_dynamic)
qed

text \<open>
  The claim C1 as the specification states it fails: with 10 runtime rows, a hardware
  batch of 4 and a window of 2, the post of the request of sub-batch 2 is the call right
  after the wait for the request of sub-batch 0, not before it.
\<close>

theorem post_before_wait_counterexample:
  "window_size 2 (num_batches 10 4) = 2
   \<and> trace (snd (compute ok_device (example_env 10 2))) ! 18 = WaitInfer (Queued 0)
   \<and> trace (snd (compute ok_device (example_env 10 2))) ! 19 = PostInferPost (Queued 2)
   \<and> \<not> before (is_post 2) (is_wait (2 - 2))
         (trace (snd (compute ok_device (example_env 10 2))))"
  by (simp add: example_run_10 example_numbers)

section \<open>The pipeline: tokens of the admission semaphore\<close>

lemma acquires_simps:
  "acquires [] = 0"
  "acquires (c # calls) = (if c = AcquireSem then 1 else 0) + acquires calls"
  "acquires (calls @ new) = acquires calls + acquires new"
  by (simp_all add: acquires_def)

lemma releases_simps:
  "releases [] = 0"
  "releases (c # calls) = (if c = ReleaseSem then 1 else 0) + releases calls"
  "releases (calls @ new) = releases calls + releases new"
  by (simp_all add: releases_def)

lemma posts_simps:
  "posts [] = 0"
  "posts (c # calls) = (if posts_request c then 1 else 0) + posts calls"
  "posts (calls @ new) = posts calls + posts new"
  by (simp_all add: posts_def)

lemma sem_counts_eq:
  "(sem_counts calls = (a, r, q)) = (acquires calls = a \<and> releases calls = r \<and> posts calls = q)"
  by (simp add: sem_counts_def)

lemmas sem_simps = sem_bounds_def sem_counts_eq acquires_simps releases_simps posts_simps

lemma post_one_sem:
  assumes "infer_sem env" and "sem_counts (trace s) = (k, 0, k)"
    and "int (length (scoped_io_queue s)) = k" and "0 \<le> k" and "k < w"
  shows "wp (post_one dev env p first k)
           (\<lambda>s'. sem_counts (trace s') = (k + 1, 0, k + 1)
                  \<and> int (length (scoped_io_queue s')) = k + 1)
           (\<lambda>r s'. sem_bounds w (trace s')) s"
  using assms
  by (simp add: body_defs wp_rules sem_simps
      cong: wp_weak_cong)

lemma wait_one_post_one_sem:
  assumes "sem_counts (trace s) = (w, 0, b)"
    and "int (length (scoped_io_queue s)) = w" and "0 \<le> w" and "w \<le> b"
  shows "wp (wait_one_post_one dev env p first b)
           (\<lambda>s'. sem_counts (trace s') = (w, 0, b + 1)
                  \<and> int (length (scoped_io_queue s')) = w)
           (\<lambda>r s'. sem_bounds w (trace s')) s"
  using assms
  by (simp add: body_defs wp_rules sem_simps
      cong: wp_weak_cong)

lemma post_all_sem:
  assumes "infer_sem env" and "sem_counts (trace s) = (0, 0, 0)"
    and "scoped_io_queue s = []" and "1 \<le> w" and "w \<le> n"
  shows "wp (post_all dev env p n w)
           (\<lambda>s'. sem_counts (trace s') = (w, 0, n) \<and> int (length (scoped_io_queue s')) = w)
           (\<lambda>r s'. sem_bounds w (trace s')) s"
proof -
  let ?E = "\<lambda>(r::outcome) s'. sem_bounds w (trace s')"
  let ?I = "\<lambda>k s'. 0 \<le> k \<and> k \<le> w \<and> sem_counts (trace s') = (k, 0, k)
                     \<and> int (length (scoped_io_queue s')) = k"
  let ?J = "\<lambda>b s'. w \<le> b \<and> sem_counts (trace s') = (w, 0, b)
                     \<and> int (length (scoped_io_queue s')) = w"
  have start: "wp (seqs [ext_void AcquireMutex,
                    RIE_IGNORE_ABORTED (ext_call dev StartModelUnsafe),
                    RIE_IGNORE_ABORTED (ext_call dev StartPing)]) (?I 0) ?E s"
    using assms
    by (simp add: wp_rules sem_simps cong: wp_weak_cong)
  have fill: "wp (seqs (map (post_one dev env p (n - w)) [0 .. w - 1])) (?I (w - 1 + 1)) ?E s'"
    if "?I 0 s'" for s'
    using that assms(4)
    by (intro wp_loop_upto [where I = ?I])
       (auto intro: wp_mono [OF post_one_sem [OF assms(1)]])
  have steady: "wp (seqs (map (wait_one_post_one dev env p (n - w)) [w .. n - 1]))
                  (?J (n - 1 + 1)) ?E s'"
    if "?J w s'" for s'
    using that assms(4,5)
    by (intro wp_loop_upto [where I = ?J])
       (auto intro: wp_mono [OF wait_one_post_one_sem])
  have "wp (post_all dev env p n w) (?J (n - 1 + 1)) ?E s"
    unfolding post_all_def Let_def
    apply (rule wp_seqs_appendI [OF start])
    apply (rule wp_seqs_appendI [OF fill])
     apply assumption
    apply (rule steady)
    apply simp
    done
  then show ?thesis
    by (rule wp_mono) simp_all
qed

lemma locked_section_sem:
  assumes "infer_sem env" and "sem_counts (trace s) = (0, 0, 0)"
    and "scoped_io_queue s = []" and "1 \<le> w" and "w \<le> n"
  shows "wp (locked_section dev env p n w)
           (\<lambda>s'. sem_counts (trace s') = (w, 0, n) \<and> int (length (scoped_io_queue s')) = w)
           (\<lambda>r s'. sem_bounds w (trace s')) s"
proof -
  let ?Q = "\<lambda>s'. sem_counts (trace s') = (w, 0, n) \<and> int (length (scoped_io_queue s')) = w"
  have rest: "wp (seqs (TFNN_ASSERT (\<lambda>s. int (length (need_wait_infer_post s)) = w) INTERNAL
                  # map (\<lambda>wait_bidx. wait_posted dev) [0 .. w - 1]))
                ?Q (\<lambda>r s'. sem_bounds w (trace s')) s'"
    if "?Q s'" for s'
    using that assms(4,5)
    by (intro wp_seqs_invariant [where I = ?Q])
       (auto simp: body_defs wp_rules sem_simps
          cong: wp_weak_cong)
  show ?thesis
    unfolding locked_section_def append_Cons append_Nil wp_seqs_Cons [of "post_all dev env p n w"]
    by (rule wp_mono [OF post_all_sem [OF assms]]) (simp_all add: rest)
qed

lemma wait_front_sem:
  assumes "sem_counts (trace s) = (w, j, n)" and "0 \<le> j" and "j < w" and "w \<le> n"
  shows "wp (wait_front dev)
           (\<lambda>s'. sem_counts (trace s') = (w, j + 1, n)
                  \<and> scoped_io_queue s' = tl (scoped_io_queue s))
           (\<lambda>r s'. sem_bounds w (trace s')) s"
  using assms
  by (simp add: body_defs wp_rules sem_simps
      cong: wp_weak_cong)

lemma wait_remaining_sem:
  assumes "sem_counts (trace s) = (w, w - int (length is), n)"
    and "length (scoped_io_queue s) = length is" and "int (length is) \<le> w" and "w \<le> n"
  shows "wp (wait_remaining dev is) (\<lambda>s'. sem_counts (trace s') = (w, w, n))
           (\<lambda>r s'. sem_bounds w (trace s')) s"
  using assms
proof (induction "is" arbitrary: s)
  case Nil
  then show ?case by (simp add: wp_wait_remaining_Nil)
next
  case (Cons i "is")
  let ?j = "w - int (length (i # is))"
  have ne: "scoped_io_queue s \<noteq> []"
    using Cons.prems(2) by auto
  have front: "wp (wait_front dev)
          (\<lambda>s'. sem_counts (trace s') = (w, ?j + 1, n)
                 \<and> scoped_io_queue s' = tl (scoped_io_queue s))
          (\<lambda>r s'. sem_bounds w (trace s')) s"
    using Cons.prems by (intro wait_front_sem) simp_all
  have "wp (wait_front dev)
          (wp (wait_remaining dev is) (\<lambda>s'. sem_counts (trace s') = (w, w, n))
             (\<lambda>r s'. sem_bounds w (trace s')))
          (\<lambda>r s'. sem_bounds w (trace s')) s"
  proof (rule wp_mono [OF front])
    fix s' :: cstate
    assume *: "sem_counts (trace s') = (w, ?j + 1, n)
                 \<and> scoped_io_queue s' = tl (scoped_io_queue s)"
    show "wp (wait_remaining dev is) (\<lambda>s'. sem_counts (trace s') = (w, w, n))
             (\<lambda>r s'. sem_bounds w (trace s')) s'"
      using * Cons.prems by (intro Cons.IH) simp_all
  qed simp
  then show ?case
    using ne by (simp add: wp_wait_remaining_Cons)
qed

lemma before_lock_sem:
  assumes "sem_counts (trace s) = (0, 0, 0)" and "scoped_io_queue s = []" and "0 \<le> w"
  shows "wp (seqs ([crash_unless (\<lambda>_. k_batch_size p \<noteq> 0)]
            @ map (\<lambda>idx. ext_call dev
                     (AllocateOutput idx (batch_output_tensor (node_def env) p idx)))
                [0..<num_outputs env]
            @ [slice_batch_inputs dev (input_tensors env) p,
               RIE_IGNORE_ABORTED (ext_call dev Initialize),
               ext_void GetSession,
               (if profile_enabled env then profile_run dev env p else seqs []),
               modify (\<lambda>s. s\<lparr>batches_sliced_outputs := replicate (nat n) []\<rparr>)]))
           (\<lambda>s'. sem_counts (trace s') = (0, 0, 0) \<and> scoped_io_queue s' = [])
           (\<lambda>r s'. sem_bounds w (trace s')) s"
proof -
  let ?I = "\<lambda>s'. sem_counts (trace s') = (0, 0, 0) \<and> scoped_io_queue s' = []"
  let ?E = "\<lambda>(r::outcome) s'. sem_bounds w (trace s')"
  have slice: "wp (slice_batch_inputs dev (input_tensors env) p) ?I ?E s'" if "?I s'" for s'
    unfolding slice_batch_inputs_def Let_def
    using that assms(3)
    by (intro wp_seqs_invariant [where I = ?I])
       (auto simp: slice_batch_input_def emplace_input_def Let_def wp_rules sem_simps
          cong: wp_weak_cong)
  have profile: "wp (profile_run dev env p) ?I ?E s'" if "?I s'" for s'
    unfolding profile_run_def
    using that assms(3)
    by (intro wp_seqs_invariant [where I = ?I])
       (auto simp: check_sliced_inputs_def wp_rules sem_simps cong: wp_weak_cong)
  show ?thesis
    using assms
    by (intro wp_seqs_invariant [where I = ?I])
       (auto simp: slice profile wp_rules sem_simps cong: wp_weak_cong)
qed

lemma dynamic_batch_path_sem:
  assumes "infer_sem env" and "n = num_batches (batch_size p) (k_batch_size p)"
    and "1 \<le> n" and "w = window_size (max_num_infers env) n"
  shows "wp (dynamic_batch_path dev env p) (\<lambda>s'. sem_counts (trace s') = (w, w, n))
           (\<lambda>r s'. sem_bounds w (trace s')) initial_cstate"
proof -
  let ?E = "\<lambda>(r::outcome) s'. sem_bounds w (trace s')"
  have w: "1 \<le> w" "w \<le> n"
    using window_size_bounds [OF assms(3)] assms(4) by simp_all
  have init: "sem_counts (trace initial_cstate) = (0, 0, 0)" "scoped_io_queue initial_cstate = []"
    by (simp_all add: initial_cstate_def sem_simps)
  have len: "length [0 .. w - 1] = nat w"
    by simp
  have drain: "wp (wait_remaining dev [0 .. w - 1]) (\<lambda>s'. sem_counts (trace s') = (w, w, n)) ?E s'"
    if "sem_counts (trace s') = (w, 0, n) \<and> int (length (scoped_io_queue s')) = w" for s'
    using that w by (intro wait_remaining_sem) (auto simp: len)
  have tail: "wp (seqs [locked_section dev env p n w, wait_remaining dev [0 .. w - 1]])
                (\<lambda>s'. sem_counts (trace s') = (w, w, n)) ?E s'"
    if "sem_counts (trace s') = (0, 0, 0) \<and> scoped_io_queue s' = []" for s'
    unfolding wp_seqs_Cons wp_seqs_Nil
    by (rule wp_mono [OF locked_section_sem [OF assms(1) _ _ w]])
       (use that in \<open>simp_all add: drain\<close>)
  have w0: "0 \<le> w"
    using w by simp
  show ?thesis
    unfolding dynamic_batch_path_def Let_def assms(2,4) [symmetric]
    using wp_seqs_appendI [OF before_lock_sem [OF init w0, of p dev env n] tail]
    by simp
qed

text \<open>
  C6, as the code has it. With the semaphore in use and at least one sub-batch, a token is taken once for each of the
  first \<open>w\<close> requests, in the loop that fills the window, and none for the requests
  posted later, which go out after the wait for the oldest one; a token is handed back once
  for each request waited for in the last loop. So a run that returns \<^verbatim>\<open>OK\<close> has taken
  \<open>w\<close> tokens, handed back \<open>w\<close> and posted \<open>n\<close> requests. A run cut short by an
  error has handed back no more tokens than it took, has taken at most \<open>w\<close>, and has taken
  one for each of its first \<open>w\<close> posts; the tokens it still holds are left to the end of
  the scope of the reservation queue.
\<close>

theorem tokens_taken_per_window_slot:
  assumes "infer_sem env" and "n = num_batches (batch_size p) (k_batch_size p)"
    and "1 \<le> n" and "w = window_size (max_num_infers env) n"
    and "dynamic_batch_path dev env p initial_cstate = (r, s)"
  shows "releases (trace s) \<le> acquires (trace s)
       \<and> acquires (trace s) \<le> w
       \<and> min (posts (trace s)) w \<le> acquires (trace s)
       \<and> (r = Returns OK \<longrightarrow>
            acquires (trace s) = w \<and> releases (trace s) = w \<and> posts (trace s) = n)"
proof -
  have w: "1 \<le> w" "w \<le> n"
    using window_size_bounds [OF assms(3)] assms(4) by simp_all
  have "if r = Returns OK then sem_counts (trace s) = (w, w, n) else sem_bounds w (trace s)"
    using dynamic_batch_path_sem [OF assms(1-4)] assms(5) by (rule wp_result)
  then show ?thesis
    using w by (auto simp: sem_counts_eq sem_bounds_def split: if_splits)
qed

theorem tokens_taken_per_window_slot_witness:
  "acquires (trace (snd (dynamic_batch_path ok_device (example_env 10 2) (example_plan 10)
                           initial_cstate))) = 2
   \<and> releases (trace (snd (dynamic_batch_path ok_device (example_env 10 2) (example_plan 10)
                           initial_cstate))) = 2
   \<and> posts (trace (snd (dynamic_batch_path ok_device (example_env 10 2) (example_plan 10)
                           initial_cstate))) = 3"
proof -
  let ?run = "dynamic_batch_path ok_device (example_env 10 2) (example_plan 10) initial_cstate"
  have h: "infer_sem (example_env 10 2)"
    "3 = num_batches (batch_size (example_plan 10)) (k_batch_size (example_plan 10))"
    "(1::int) \<le> 3" "2 = window_size (max_num_infers (example_env 10 2)) 3"
    by (simp_all add: example_plan_def example_env_def example_numbers)
  have "fst ?run = Returns OK"
    using example_run_10 by (simp add: example_compute_dynamic)
  then have run: "?run = (Returns OK, snd ?run)"
    by (metis prod.collapse)
  show ?thesis
    using tokens_taken_per_window_slot [OF h run] by simp
qed

text \<open>
  The claim C6 as the specification states it fails: with 10 runtime rows, a hardware
  batch of 4 and a window of 2, the run returns \<^verbatim>\<open>OK\<close> after posting three requests, and
  it has taken two tokens and handed back two.
\<close>

theorem one_token_per_request_counterexample:
  "fst (compute ok_device (example_env 10 2)) = Returns OK
   \<and> posts (trace (snd (compute ok_device (example_env 10 2)))) = 3
   \<and> acquires (trace (snd (compute ok_device (example_env 10 2)))) = 2
   \<and> releases (trace (snd (compute ok_device (example_env 10 2)))) = 2
   \<and> acquires (trace (snd (compute ok_device (example_env 10 2))))
       \<noteq> posts (trace (snd (compute ok_device (example_env 10 2))))"
  by (simp add: example_run_10 acquires_def releases_def posts_def)

section \<open>The ignore-aborted policy\<close>

subsection \<open>An aborted call at a wrapped site is as good as a successful one\<close>

















subsection \<open>Any other status ends the run\<close>


lemma enumerate_snoc: "enumerate k (calls @ [c]) = enumerate k calls @ [(k + length calls, c)]"
  by (simp add: enumerate_append_eq)

lemma fail_stop_snoc:
  assumes "list_all (passed dev) (enumerate 0 calls)"
    and "passed dev (length calls, c) \<or> r = Returns (dev (length calls) c)"
  shows "fail_stop dev r (calls @ [c])"
  using assms by (simp add: fail_stop_def)

lemma all_passed_fail_stop:
  assumes "list_all (passed dev) (enumerate 0 calls)"
  shows "fail_stop dev r calls"
proof (cases calls rule: rev_cases)
  case Nil
  then show ?thesis by (simp add: fail_stop_def)
next
  case (snoc calls' c)
  then show ?thesis
    using assms by (simp add: fail_stop_snoc enumerate_snoc)
qed

lemma allocates_output_not_wrapped: "allocates_output c \<Longrightarrow> \<not> ignore_aborted_site c"
  by (cases c) simp_all

lemma allocating_stopped:
  assumes "allocating dev calls"
  shows "stopped dev n r calls"
proof -
  have "list_all (\<lambda>c. \<not> ignore_aborted_site c) calls"
    using assms by (auto simp: allocating_def list_all_iff allocates_output_not_wrapped)
  then show ?thesis
    using assms by (simp add: stopped_def all_passed_fail_stop allocating_def
        outputs_allocated_first_def)
qed





















subsection \<open>Two runs\<close>





end
